theory Spec2Isabelle
  imports Main "HOL-Library.Multiset"
begin

section \<open>The store: the four tables of src/db/schema.ts\<close>

text \<open>
  Identifiers are JavaScript numbers holding SQLite integers, modelled as \<open>int\<close>.
  A timestamp column (\<open>integer(..., { mode: "timestamp" })\<close>) holds whole seconds since the
  epoch; a column without \<open>notNull()\<close> is an \<open>option\<close>. Strings are \<open>string\<close>: the
  code units below 256.
\<close>

type_synonym timestamp = int

datatype chat_type = Private | Group | Channel

datatype role = Owner | Admin | Member

record user =
  u_id :: int
  u_username :: string
  u_phone :: string
  u_passwordHash :: string
  u_displayName :: string
  u_bio :: "string option"
  u_avatarUrl :: "string option"
  u_lastSeen :: "timestamp option"
  u_isOnline :: "bool option"
  u_createdAt :: "timestamp option"

record chat =
  c_id :: int
  c_type :: chat_type
  c_name :: "string option"
  c_description :: "string option"
  c_avatarUrl :: "string option"
  c_createdBy :: "int option"
  c_createdAt :: "timestamp option"

record chat_member =
  cm_id :: int
  cm_chatId :: int
  cm_userId :: int
  cm_role :: role
  cm_joinedAt :: "timestamp option"

record message =
  m_id :: int
  m_chatId :: int
  m_senderId :: int
  m_text :: "string option"
  m_replyToId :: "int option"
  m_isEdited :: "bool option"
  m_isDeleted :: "bool option"
  m_createdAt :: "timestamp option"

text \<open>
  The store is the four tables, each a list of rows in insertion order. The module that opens
  the connection is not among the sources, so whether the store enforces the declared
  \<open>references(...)\<close> is the flag \<open>foreignKeys\<close> of the store; every operation is modelled
  for both settings.
\<close>

record db =
  users :: "user list"
  chats :: "chat list"
  chatMembers :: "chat_member list"
  messages :: "message list"
  foreignKeys :: bool

text \<open>The claims carried by a session token (interface AuthUser of src/lib/auth.ts).\<close>

record auth_user =
  au_id :: int
  au_username :: string
  au_displayName :: string
  au_phone :: string

text \<open>
  An action returns \<open>{ error: string }\<close> or its payload; a constraint violation raised by the
  store is not caught by any action and leaves it as an exception.
\<close>

datatype store_error = UniqueViolation | ForeignKeyViolation

datatype 'a result = ErrorResult string | Success 'a | Raised store_error

text \<open>\<open>integer("id").primaryKey({ autoIncrement: true })\<close>: one more than the largest id.\<close>

definition next_id :: "int list \<Rightarrow> int" where
  "next_id ids = fold max ids 0 + 1"

definition user_exists :: "db \<Rightarrow> int \<Rightarrow> bool" where
  "user_exists d uid = (uid \<in> set (map u_id (users d)))"

definition chat_exists :: "db \<Rightarrow> int \<Rightarrow> bool" where
  "chat_exists d cid = (cid \<in> set (map c_id (chats d)))"

section \<open>Strings as JavaScript treats them\<close>

text \<open>White space and line terminators of ECMAScript among the code units below 256.\<close>

definition is_space :: "char \<Rightarrow> bool" where
  "is_space c = (of_char c \<in> set [9, 10, 11, 12, 13, 32, 160 :: nat])"

definition trim :: "string \<Rightarrow> string" where
  "trim s = rev (dropWhile is_space (rev (dropWhile is_space s)))"

definition toLowerCase_char :: "char \<Rightarrow> char" where
  "toLowerCase_char c =
     (let n = (of_char c :: nat)
      in if (65 \<le> n \<and> n \<le> 90) \<or> (192 \<le> n \<and> n \<le> 222 \<and> n \<noteq> 215)
         then char_of (n + 32) else c)"

definition toLowerCase :: "string \<Rightarrow> string" where
  "toLowerCase s = map toLowerCase_char s"

text \<open>The character class \<open>[a-zA-Z0-9_]\<close> and the test \<open>/^[a-zA-Z0-9_]+$/\<close>.\<close>

definition is_word_char :: "char \<Rightarrow> bool" where
  "is_word_char c =
     (let n = (of_char c :: nat)
      in (97 \<le> n \<and> n \<le> 122) \<or> (65 \<le> n \<and> n \<le> 90) \<or> (48 \<le> n \<and> n \<le> 57) \<or> n = 95)"

definition username_ok :: "string \<Rightarrow> bool" where
  "username_ok s = (s \<noteq> [] \<and> list_all is_word_char s)"

section \<open>Message actions\<close>

text \<open>sendMessage: \<open>replyToId || null\<close> turns an absent or zero reply target into NULL.\<close>

definition reply_or_null :: "int option \<Rightarrow> int option" where
  "reply_or_null r = (case r of None \<Rightarrow> None | Some n \<Rightarrow> if n = 0 then None else Some n)"

definition insert_message :: "timestamp \<Rightarrow> int \<Rightarrow> int \<Rightarrow> string \<Rightarrow> int option \<Rightarrow> db
    \<Rightarrow> store_error + (db \<times> message)" where
  "insert_message now chatId senderId text replyToId d =
     (if foreignKeys d \<and> \<not> (chat_exists d chatId \<and> user_exists d senderId)
      then Inl ForeignKeyViolation
      else
        let row = \<lparr> m_id = next_id (map m_id (messages d)), m_chatId = chatId,
                    m_senderId = senderId, m_text = Some text, m_replyToId = replyToId,
                    m_isEdited = Some False, m_isDeleted = Some False,
                    m_createdAt = Some now \<rparr>
        in Inr (d\<lparr>messages := messages d @ [row]\<rparr>, row))"

definition sendMessage :: "auth_user option \<Rightarrow> timestamp \<Rightarrow> int \<Rightarrow> string \<Rightarrow> int option \<Rightarrow> db
    \<Rightarrow> db \<times> message result" where
  "sendMessage currentUser now chatId text replyToId d =
     (case currentUser of
        None \<Rightarrow> (d, ErrorResult ''Not authenticated'')
      | Some cu \<Rightarrow>
          if trim text = [] then (d, ErrorResult ''Message cannot be empty'')
          else
            (case insert_message now chatId (au_id cu) (trim text) (reply_or_null replyToId) d of
               Inl e \<Rightarrow> (d, Raised e)
             | Inr (d', row) \<Rightarrow> (d', Success row)))"

definition editMessage :: "auth_user option \<Rightarrow> int \<Rightarrow> string \<Rightarrow> db \<Rightarrow> db \<times> unit result" where
  "editMessage currentUser messageId newText d =
     (case currentUser of
        None \<Rightarrow> (d, ErrorResult ''Not authenticated'')
      | Some cu \<Rightarrow>
          (d\<lparr>messages :=
               map (\<lambda>m. if m_id m = messageId \<and> m_senderId m = au_id cu
                        then m\<lparr>m_text := Some newText, m_isEdited := Some True\<rparr> else m)
                   (messages d)\<rparr>,
           Success ()))"

definition deleteMessage :: "auth_user option \<Rightarrow> int \<Rightarrow> db \<Rightarrow> db \<times> unit result" where
  "deleteMessage currentUser messageId d =
     (case currentUser of
        None \<Rightarrow> (d, ErrorResult ''Not authenticated'')
      | Some cu \<Rightarrow>
          (d\<lparr>messages :=
               map (\<lambda>m. if m_id m = messageId \<and> m_senderId m = au_id cu
                        then m\<lparr>m_isDeleted := Some True\<rparr> else m)
                   (messages d)\<rparr>,
           Success ()))"

section \<open>Account actions\<close>

text \<open>
  A submitted form: \<open>formData.get(name)\<close> is the field's string, or null when the field is
  absent. \<open>!v\<close> holds of null and of the empty string.
\<close>

type_synonym form = "string \<Rightarrow> string option"


text \<open>
  Inserting a user row: the unique indexes on username and phone (binary comparison) are
  checked by the store; bio defaults to the empty string, is_online to false, last_seen and
  created_at to the current time.
\<close>

definition insert_user :: "timestamp \<Rightarrow> string \<Rightarrow> string \<Rightarrow> string \<Rightarrow> string \<Rightarrow> db
    \<Rightarrow> store_error + (db \<times> user)" where
  "insert_user now phone username displayName passwordHash d =
     (if username \<in> set (map u_username (users d)) \<or> phone \<in> set (map u_phone (users d))
      then Inl UniqueViolation
      else
        let row = \<lparr> u_id = next_id (map u_id (users d)), u_username = username,
                    u_phone = phone, u_passwordHash = passwordHash,
                    u_displayName = displayName, u_bio = Some [], u_avatarUrl = None,
                    u_lastSeen = Some now, u_isOnline = Some False, u_createdAt = Some now \<rparr>
        in Inr (d\<lparr>users := users d @ [row]\<rparr>, row))"

definition token_of :: "user \<Rightarrow> auth_user" where
  "token_of u = \<lparr> au_id = u_id u, au_username = u_username u,
                  au_displayName = u_displayName u, au_phone = u_phone u \<rparr>"

text \<open>
  registerAction. \<open>hash\<close> stands for \<open>bcrypt.hash(_, 10)\<close>. On success the action sets the
  session cookie for the returned claims and redirects to /chat.
\<close>

definition registerAction :: "(string \<Rightarrow> string) \<Rightarrow> timestamp \<Rightarrow> form \<Rightarrow> db
    \<Rightarrow> db \<times> auth_user result" where
  "registerAction hash now formData d =
     (case (formData ''phone'', formData ''username'', formData ''displayName'',
            formData ''password'') of
        (Some phone, Some username, Some displayName, Some password) \<Rightarrow>
          if phone = [] \<or> username = [] \<or> displayName = [] \<or> password = []
          then (d, ErrorResult ''All fields are required'')
          else if length password < 6
          then (d, ErrorResult ''Password must be at least 6 characters'')
          else if \<not> username_ok username
          then (d, ErrorResult ''Username can only contain letters, numbers, and underscores'')
          else if [u \<leftarrow> users d. u_phone u = phone \<or> u_username u = username] \<noteq> []
          then (d, ErrorResult ''Phone number or username already registered'')
          else
            (case insert_user now phone (toLowerCase username) displayName (hash password) d of
               Inl e \<Rightarrow> (d, Raised e)
             | Inr (d', row) \<Rightarrow> (d', Success (token_of row)))
      | _ \<Rightarrow> (d, ErrorResult ''All fields are required''))"

text \<open>The result the specification calls DuplicateError.\<close>

definition DuplicateError :: "auth_user result" where
  "DuplicateError = ErrorResult ''Phone number or username already registered''"

text \<open>
  loginAction. \<open>compare\<close> stands for \<open>bcrypt.compare\<close>. The store answers the lookup
  \<open>phone = ? OR username = ?\<close> over the two unique indexes with the row found by phone
  first, then the row found by username; \<open>result[0]\<close> is the first of these.
\<close>

definition set_presence :: "int \<Rightarrow> bool \<Rightarrow> timestamp \<Rightarrow> db \<Rightarrow> db" where
  "set_presence uid online now d =
     d\<lparr>users := map (\<lambda>u. if u_id u = uid
                          then u\<lparr>u_isOnline := Some online, u_lastSeen := Some now\<rparr> else u)
                     (users d)\<rparr>"

definition loginAction :: "(string \<Rightarrow> string \<Rightarrow> bool) \<Rightarrow> timestamp \<Rightarrow> form \<Rightarrow> db
    \<Rightarrow> db \<times> auth_user result" where
  "loginAction compare now formData d =
     (case (formData ''login'', formData ''password'') of
        (Some login, Some password) \<Rightarrow>
          if login = [] \<or> password = [] then (d, ErrorResult ''All fields are required'')
          else
            (case [u \<leftarrow> users d. u_phone u = login]
                  @ [u \<leftarrow> users d. u_phone u \<noteq> login \<and> u_username u = toLowerCase login] of
               [] \<Rightarrow> (d, ErrorResult ''User not found'')
             | row # _ \<Rightarrow>
                 if \<not> compare password (u_passwordHash row)
                 then (d, ErrorResult ''Invalid password'')
                 else (set_presence (u_id row) True now d, Success (token_of row)))
      | _ \<Rightarrow> (d, ErrorResult ''All fields are required''))"

definition logoutAction :: "auth_user option \<Rightarrow> timestamp \<Rightarrow> db \<Rightarrow> db" where
  "logoutAction currentUser now d =
     (case currentUser of None \<Rightarrow> d | Some cu \<Rightarrow> set_presence (au_id cu) False now d)"

text \<open>
  updateProfile: \<open>bio || ""\<close> and \<open>username?.toLowerCase() || currentUser.username\<close>. The
  store checks the unique index on username when the row is rewritten.
\<close>

definition update_user :: "int \<Rightarrow> string \<Rightarrow> string \<Rightarrow> string \<Rightarrow> db \<Rightarrow> store_error + db" where
  "update_user uid displayName bio username d =
     (if (\<exists>u \<in> set (users d). u_id u = uid)
         \<and> (\<exists>u \<in> set (users d). u_id u \<noteq> uid \<and> u_username u = username)
      then Inl UniqueViolation
      else Inr (d\<lparr>users :=
                   map (\<lambda>u. if u_id u = uid
                            then u\<lparr>u_displayName := displayName, u_bio := Some bio,
                                   u_username := username\<rparr>
                            else u)
                       (users d)\<rparr>))"

definition updateProfile :: "auth_user option \<Rightarrow> form \<Rightarrow> db \<Rightarrow> db \<times> unit result" where
  "updateProfile currentUser formData d =
     (case currentUser of
        None \<Rightarrow> (d, ErrorResult ''Not authenticated'')
      | Some cu \<Rightarrow>
          (case formData ''displayName'' of
             None \<Rightarrow> (d, ErrorResult ''Display name is required'')
           | Some displayName \<Rightarrow>
               if displayName = [] then (d, ErrorResult ''Display name is required'')
               else
                 let bio = (case formData ''bio'' of None \<Rightarrow> [] | Some b \<Rightarrow> b);
                     username = (case formData ''username'' of
                                   None \<Rightarrow> au_username cu
                                 | Some u \<Rightarrow> if toLowerCase u = [] then au_username cu
                                            else toLowerCase u)
                 in (case update_user (au_id cu) displayName bio username d of
                       Inl e \<Rightarrow> (d, Raised e)
                     | Inr d' \<Rightarrow> (d', Success ()))))"

section \<open>Chat actions\<close>

definition insert_chat :: "timestamp \<Rightarrow> chat_type \<Rightarrow> string option \<Rightarrow> int \<Rightarrow> db
    \<Rightarrow> store_error + (db \<times> chat)" where
  "insert_chat now ty name createdBy d =
     (if foreignKeys d \<and> \<not> user_exists d createdBy then Inl ForeignKeyViolation
      else
        let row = \<lparr> c_id = next_id (map c_id (chats d)), c_type = ty, c_name = name,
                    c_description = None, c_avatarUrl = None, c_createdBy = Some createdBy,
                    c_createdAt = Some now \<rparr>
        in Inr (d\<lparr>chats := chats d @ [row]\<rparr>, row))"

text \<open>One insert statement for a batch of membership rows: all of them or none.\<close>

fun add_members :: "timestamp \<Rightarrow> (int \<times> int \<times> role) list \<Rightarrow> chat_member list
    \<Rightarrow> chat_member list" where
  "add_members now [] tbl = tbl"
| "add_members now ((c, u, r) # rows) tbl =
     add_members now rows
       (tbl @ [\<lparr> cm_id = next_id (map cm_id tbl), cm_chatId = c, cm_userId = u, cm_role = r,
                 cm_joinedAt = Some now \<rparr>])"

definition insert_chat_members :: "timestamp \<Rightarrow> (int \<times> int \<times> role) list \<Rightarrow> db
    \<Rightarrow> store_error + db" where
  "insert_chat_members now rows d =
     (if foreignKeys d \<and> \<not> list_all (\<lambda>(c, u, r). chat_exists d c \<and> user_exists d u) rows
      then Inl ForeignKeyViolation
      else Inr (d\<lparr>chatMembers := add_members now rows (chatMembers d)\<rparr>))"

text \<open>
  The loop of createPrivateChat over the requester's membership rows, and its test on a chat:
  the chat row is of type private, the chat has exactly two membership rows, and one of
  them is the target's.
\<close>

definition private_match :: "db \<Rightarrow> int \<Rightarrow> int \<Rightarrow> bool" where
  "private_match d targetUserId chatId =
     (let members = [m \<leftarrow> chatMembers d. cm_chatId m = chatId];
          chat = [c \<leftarrow> chats d. c_id c = chatId \<and> c_type c = Private]
      in chat \<noteq> [] \<and> length members = 2
         \<and> list_ex (\<lambda>m. cm_userId m = targetUserId) members)"

fun find_private :: "db \<Rightarrow> int \<Rightarrow> int list \<Rightarrow> int option" where
  "find_private d targetUserId [] = None"
| "find_private d targetUserId (chatId # rest) =
     (if private_match d targetUserId chatId then Some chatId
      else find_private d targetUserId rest)"

definition member_chats :: "db \<Rightarrow> int \<Rightarrow> int list" where
  "member_chats d uid = map cm_chatId [m \<leftarrow> chatMembers d. cm_userId m = uid]"

definition createPrivateChat :: "auth_user option \<Rightarrow> timestamp \<Rightarrow> int \<Rightarrow> db \<Rightarrow> db \<times> int result" where
  "createPrivateChat currentUser now targetUserId d =
     (case currentUser of
        None \<Rightarrow> (d, ErrorResult ''Not authenticated'')
      | Some cu \<Rightarrow>
          (case find_private d targetUserId (member_chats d (au_id cu)) of
             Some chatId \<Rightarrow> (d, Success chatId)
           | None \<Rightarrow>
               (case insert_chat now Private None (au_id cu) d of
                  Inl e \<Rightarrow> (d, Raised e)
                | Inr (d1, newChat) \<Rightarrow>
                    (case insert_chat_members now
                            [(c_id newChat, au_id cu, Member),
                             (c_id newChat, targetUserId, Member)] d1 of
                       Inl e \<Rightarrow> (d1, Raised e)
                     | Inr d2 \<Rightarrow> (d2, Success (c_id newChat))))))"

definition createGroupChat :: "auth_user option \<Rightarrow> timestamp \<Rightarrow> string \<Rightarrow> int list \<Rightarrow> db
    \<Rightarrow> db \<times> int result" where
  "createGroupChat currentUser now name memberIds d =
     (case currentUser of
        None \<Rightarrow> (d, ErrorResult ''Not authenticated'')
      | Some cu \<Rightarrow>
          (case insert_chat now Group (Some name) (au_id cu) d of
             Inl e \<Rightarrow> (d, Raised e)
           | Inr (d1, newChat) \<Rightarrow>
               (case insert_chat_members now
                       ((c_id newChat, au_id cu, Owner)
                        # map (\<lambda>userId. (c_id newChat, userId, Member)) memberIds) d1 of
                  Inl e \<Rightarrow> (d1, Raised e)
                | Inr d2 \<Rightarrow> (d2, Success (c_id newChat)))))"

section \<open>Data fetching\<close>

text \<open>
  Ordering. \<open>orderBy\<close> and \<open>Array.prototype.sort\<close> are modelled by a stable insertion sort
  for an order \<open>le\<close>: rows that compare equal keep the order they had.
\<close>

fun insort_by :: "('a \<Rightarrow> 'a \<Rightarrow> bool) \<Rightarrow> 'a \<Rightarrow> 'a list \<Rightarrow> 'a list" where
  "insort_by le x [] = [x]"
| "insort_by le x (y # ys) = (if le x y then x # y # ys else y # insort_by le x ys)"

definition sort_by :: "('a \<Rightarrow> 'a \<Rightarrow> bool) \<Rightarrow> 'a list \<Rightarrow> 'a list" where
  "sort_by le xs = foldr (insort_by le) xs []"

text \<open>SQLite's order on a nullable integer column: NULL before every value.\<close>

fun ts_le :: "timestamp option \<Rightarrow> timestamp option \<Rightarrow> bool" where
  "ts_le None _ = True"
| "ts_le (Some a) None = False"
| "ts_le (Some a) (Some b) = (a \<le> b)"

text \<open>
  A timestamp column is read back as \<open>new Date(value * 1000)\<close>. A Date holds at most
  8640000000000000 milliseconds either side of the epoch; beyond that it is an invalid Date,
  whose \<open>getTime()\<close> is NaN, here \<open>None\<close>. Within the range \<open>getTime()\<close> is the time in
  milliseconds.
\<close>

definition getTime :: "timestamp \<Rightarrow> int option" where
  "getTime t = (if - 8640000000000 \<le> t \<and> t \<le> 8640000000000 then Some (t * 1000) else None)"

record member_info =
  mi_userId :: int
  mi_role :: role
  mi_username :: string
  mi_displayName :: string
  mi_avatarUrl :: "string option"
  mi_isOnline :: "bool option"
  mi_lastSeen :: "timestamp option"

record chat_summary =
  cs_id :: int
  cs_type :: chat_type
  cs_name :: "string option"
  cs_description :: "string option"
  cs_avatarUrl :: "string option"
  cs_createdBy :: "int option"
  cs_createdAt :: "timestamp option"
  cs_members :: "member_info list"
  cs_lastMessage :: "message option"
  cs_otherUserOnline :: bool

definition chat_members_of :: "db \<Rightarrow> int \<Rightarrow> member_info list" where
  "chat_members_of d chatId =
     concat (map (\<lambda>m. map (\<lambda>u. \<lparr> mi_userId = cm_userId m, mi_role = cm_role m,
                                 mi_username = u_username u, mi_displayName = u_displayName u,
                                 mi_avatarUrl = u_avatarUrl u, mi_isOnline = u_isOnline u,
                                 mi_lastSeen = u_lastSeen u \<rparr>)
                         [u \<leftarrow> users d. u_id u = cm_userId m])
                 [m \<leftarrow> chatMembers d. cm_chatId m = chatId])"

definition last_message :: "db \<Rightarrow> int \<Rightarrow> message option" where
  "last_message d chatId =
     (case sort_by (\<lambda>a b. ts_le (m_createdAt b) (m_createdAt a))
             [m \<leftarrow> messages d. m_chatId m = chatId \<and> m_isDeleted m = Some False] of
        [] \<Rightarrow> None
      | m # _ \<Rightarrow> Some m)"

definition chat_summary_of :: "auth_user \<Rightarrow> db \<Rightarrow> chat \<Rightarrow> chat_summary" where
  "chat_summary_of cu d c =
     (let members = chat_members_of d (c_id c);
          lastMsg = last_message d (c_id c);
          otherUser = (if c_type c = Private
                       then find (\<lambda>m. mi_userId m \<noteq> au_id cu) members else None)
      in \<lparr> cs_id = c_id c, cs_type = c_type c,
           cs_name = (case otherUser of None \<Rightarrow> c_name c | Some ou \<Rightarrow> Some (mi_displayName ou)),
           cs_description = c_description c,
           cs_avatarUrl = (case otherUser of None \<Rightarrow> c_avatarUrl c | Some ou \<Rightarrow> mi_avatarUrl ou),
           cs_createdBy = c_createdBy c, cs_createdAt = c_createdAt c,
           cs_members = members, cs_lastMessage = lastMsg,
           cs_otherUserOnline = (case otherUser of
                                   None \<Rightarrow> False
                                 | Some ou \<Rightarrow> (case mi_isOnline ou of None \<Rightarrow> False | Some b \<Rightarrow> b)) \<rparr>)"

text \<open>
  The comparator's \<open>a.lastMessage?.createdAt?.getTime() || a.createdAt?.getTime() || 0\<close>:
  \<open>||\<close> passes over an absent value, over NaN and over the number 0.
\<close>

definition or_time :: "int option \<Rightarrow> int \<Rightarrow> int" where
  "or_time v other = (case v of None \<Rightarrow> other | Some n \<Rightarrow> if n = 0 then other else n)"

definition sort_time :: "chat_summary \<Rightarrow> int" where
  "sort_time a =
     or_time (case cs_lastMessage a of None \<Rightarrow> None | Some m \<Rightarrow> Option.bind (m_createdAt m) getTime)
       (or_time (Option.bind (cs_createdAt a) getTime) 0)"

definition getUserChats :: "auth_user option \<Rightarrow> db \<Rightarrow> chat_summary list" where
  "getUserChats currentUser d =
     (case currentUser of
        None \<Rightarrow> []
      | Some cu \<Rightarrow>
          sort_by (\<lambda>a b. sort_time b - sort_time a \<le> 0)
            (concat (map (\<lambda>chatId. case [c \<leftarrow> chats d. c_id c = chatId] of
                                     [] \<Rightarrow> []
                                   | c # _ \<Rightarrow> [chat_summary_of cu d c])
                         (member_chats d (au_id cu)))))"

record message_row =
  mr_id :: int
  mr_chatId :: int
  mr_senderId :: int
  mr_text :: "string option"
  mr_replyToId :: "int option"
  mr_isEdited :: "bool option"
  mr_isDeleted :: "bool option"
  mr_createdAt :: "timestamp option"
  mr_senderUsername :: string
  mr_senderDisplayName :: string
  mr_senderAvatar :: "string option"

definition message_row_of :: "message \<Rightarrow> user \<Rightarrow> message_row" where
  "message_row_of m u =
     \<lparr> mr_id = m_id m, mr_chatId = m_chatId m, mr_senderId = m_senderId m, mr_text = m_text m,
       mr_replyToId = m_replyToId m, mr_isEdited = m_isEdited m, mr_isDeleted = m_isDeleted m,
       mr_createdAt = m_createdAt m, mr_senderUsername = u_username u,
       mr_senderDisplayName = u_displayName u, mr_senderAvatar = u_avatarUrl u \<rparr>"

definition joined_messages :: "db \<Rightarrow> int \<Rightarrow> message_row list" where
  "joined_messages d chatId =
     concat (map (\<lambda>m. map (message_row_of m) [u \<leftarrow> users d. u_id u = m_senderId m])
                 [m \<leftarrow> messages d. m_chatId m = chatId])"

definition getChatMessages :: "auth_user option \<Rightarrow> int \<Rightarrow> db \<Rightarrow> message_row list" where
  "getChatMessages currentUser chatId d =
     (case currentUser of
        None \<Rightarrow> []
      | Some cu \<Rightarrow> sort_by (\<lambda>a b. ts_le (mr_createdAt a) (mr_createdAt b)) (joined_messages d chatId))"

text \<open>
  SQLite's \<open>LIKE\<close>: \<open>%\<close> matches any run of characters, \<open>_\<close> any one character, and the
  letters A to Z match without regard to case.
\<close>

definition ascii_lower :: "char \<Rightarrow> char" where
  "ascii_lower c =
     (let n = (of_char c :: nat) in if 65 \<le> n \<and> n \<le> 90 then char_of (n + 32) else c)"

fun like :: "string \<Rightarrow> string \<Rightarrow> bool" where
  "like s [] = (s = [])"
| "like s (p # ps) =
     (if p = CHR ''%'' then
        (like s ps \<or> (case s of [] \<Rightarrow> False | _ # t \<Rightarrow> like t (p # ps)))
      else
        (case s of
           [] \<Rightarrow> False
         | c # t \<Rightarrow> (p = CHR ''_'' \<or> ascii_lower p = ascii_lower c) \<and> like t ps))"

record user_hit =
  uh_id :: int
  uh_username :: string
  uh_displayName :: string
  uh_avatarUrl :: "string option"
  uh_isOnline :: "bool option"

definition user_hit_of :: "user \<Rightarrow> user_hit" where
  "user_hit_of u = \<lparr> uh_id = u_id u, uh_username = u_username u,
                     uh_displayName = u_displayName u, uh_avatarUrl = u_avatarUrl u,
                     uh_isOnline = u_isOnline u \<rparr>"

definition searchUsers :: "auth_user option \<Rightarrow> string \<Rightarrow> db \<Rightarrow> user_hit list" where
  "searchUsers currentUser query d =
     (case currentUser of
        None \<Rightarrow> []
      | Some cu \<Rightarrow>
          if trim query = [] then []
          else
            let results =
                  take 20 (map user_hit_of
                    [u \<leftarrow> users d.
                       (like (u_username u) (''%'' @ toLowerCase query @ ''%'')
                        \<or> like (u_displayName u) (''%'' @ query @ ''%''))
                       \<and> u_id u = u_id u])
            in [u \<leftarrow> results. uh_id u \<noteq> au_id cu])"

section \<open>Store invariants and the specification's ordering key\<close>

text \<open>
  The schema's reference from a membership row to its chat, as a property of the store, and
  the uniqueness of (chat, user) pairs among the membership rows.
\<close>

definition members_refer_to_chats :: "db \<Rightarrow> bool" where
  "members_refer_to_chats d = list_all (\<lambda>m. chat_exists d (cm_chatId m)) (chatMembers d)"

definition member_key :: "chat_member \<Rightarrow> int \<times> int" where
  "member_key m = (cm_chatId m, cm_userId m)"

definition pair_unique :: "db \<Rightarrow> bool" where
  "pair_unique d = distinct (map member_key (chatMembers d))"

text \<open>
  The ordering key in the specification's words: the time of the chat's most recent message
  whose deleted flag is false, if there is one, else the chat's own creation time.
\<close>

definition live_times :: "db \<Rightarrow> int \<Rightarrow> timestamp list" where
  "live_times d chatId =
     List.map_filter m_createdAt
       [m \<leftarrow> messages d. m_chatId m = chatId \<and> m_isDeleted m = Some False]"

definition activity_time :: "db \<Rightarrow> chat_summary \<Rightarrow> timestamp option" where
  "activity_time d s =
     (case live_times d (cs_id s) of [] \<Rightarrow> cs_createdAt s | t # ts \<Rightarrow> Some (Max (set (t # ts))))"

text \<open>
  Rows as the actions write them: creation times are set, lie after the epoch and within the
  range of a Date.
\<close>

definition after_epoch :: "timestamp option \<Rightarrow> bool" where
  "after_epoch v = (case v of None \<Rightarrow> False | Some t \<Rightarrow> 0 < t \<and> t \<le> 8640000000000)"

definition stamped :: "db \<Rightarrow> bool" where
  "stamped d = (list_all (\<lambda>m. after_epoch (m_createdAt m)) (messages d)
                \<and> list_all (\<lambda>c. after_epoch (c_createdAt c)) (chats d))"

section \<open>An example store\<close>

definition ex_alice :: user where
  "ex_alice = \<lparr> u_id = 1, u_username = ''alice'', u_phone = ''111'', u_passwordHash = ''h1'',
                 u_displayName = ''Alice'', u_bio = Some ''hello'', u_avatarUrl = None,
                 u_lastSeen = Some 5, u_isOnline = Some False, u_createdAt = Some 5 \<rparr>"

definition ex_bob :: user where
  "ex_bob = \<lparr> u_id = 2, u_username = ''bob'', u_phone = ''222'', u_passwordHash = ''h2'',
               u_displayName = ''Bob'', u_bio = Some [], u_avatarUrl = None,
               u_lastSeen = Some 6, u_isOnline = Some False, u_createdAt = Some 6 \<rparr>"

definition ex_msg :: message where
  "ex_msg = \<lparr> m_id = 1, m_chatId = 1, m_senderId = 2, m_text = Some ''yo'', m_replyToId = None,
               m_isEdited = Some False, m_isDeleted = Some False, m_createdAt = Some 11 \<rparr>"

definition ex_users :: db where
  "ex_users = \<lparr> users = [ex_alice, ex_bob], chats = [], chatMembers = [], messages = [],
                 foreignKeys = True \<rparr>"

definition ex_db :: db where
  "ex_db = \<lparr> users = [ex_alice, ex_bob],
              chats = [\<lparr> c_id = 1, c_type = Private, c_name = None, c_description = None,
                         c_avatarUrl = None, c_createdBy = Some 1, c_createdAt = Some 10 \<rparr>],
              chatMembers = [\<lparr> cm_id = 1, cm_chatId = 1, cm_userId = 1, cm_role = Member,
                               cm_joinedAt = Some 10 \<rparr>,
                             \<lparr> cm_id = 2, cm_chatId = 1, cm_userId = 2, cm_role = Member,
                               cm_joinedAt = Some 10 \<rparr>],
              messages = [ex_msg], foreignKeys = True \<rparr>"

definition ex_carol :: auth_user where
  "ex_carol = \<lparr> au_id = 3, au_username = ''carol'', au_displayName = ''Carol'', au_phone = ''333'' \<rparr>"

definition ex_register_form :: form where
  "ex_register_form = [''phone'' \<mapsto> ''333'', ''username'' \<mapsto> ''Alice'',
                       ''displayName'' \<mapsto> ''Alice Two'', ''password'' \<mapsto> ''secret1'']"


definition ex_chat :: "int \<Rightarrow> timestamp \<Rightarrow> chat" where
  "ex_chat i t = \<lparr> c_id = i, c_type = Group, c_name = Some ''room'', c_description = None,
                   c_avatarUrl = None, c_createdBy = Some 1, c_createdAt = Some t \<rparr>"

definition ex_member :: "int \<Rightarrow> int \<Rightarrow> chat_member" where
  "ex_member i c = \<lparr> cm_id = i, cm_chatId = c, cm_userId = 1, cm_role = Owner,
                     cm_joinedAt = Some 10 \<rparr>"

definition ex_chats_db :: db where
  "ex_chats_db =
     \<lparr> users = [ex_alice, ex_bob],
       chats = [ex_chat 1 10, ex_chat 2 20, ex_chat 3 30],
       chatMembers = [ex_member 1 1, ex_member 2 2, ex_member 3 3],
       messages = [ex_msg\<lparr>m_createdAt := Some 15\<rparr>,
                   ex_msg\<lparr>m_id := 2, m_createdAt := Some 25\<rparr>,
                   ex_msg\<lparr>m_id := 3, m_chatId := 2, m_isDeleted := Some True,
                          m_createdAt := Some 40\<rparr>],
       foreignKeys = True \<rparr>"

definition ex_far_db :: db where
  "ex_far_db =
     \<lparr> users = [ex_alice, ex_bob],
       chats = [ex_chat 1 10, ex_chat 2 20],
       chatMembers = [ex_member 1 1, ex_member 2 2],
       messages = [ex_msg\<lparr>m_createdAt := Some 8640000000001\<rparr>],
       foreignKeys = True \<rparr>"

section \<open>Fresh identifiers\<close>

lemma fold_max_lower: "(a::int) \<le> fold max xs a"
proof (induction xs arbitrary: a)
  case Nil
  show ?case by simp
next
  case (Cons x xs)
  have "a \<le> max x a" by simp
  also have "\<dots> \<le> fold max xs (max x a)" by (rule Cons.IH)
  finally show ?case by simp
qed

lemma fold_max_upper: "x \<in> set xs \<Longrightarrow> (x::int) \<le> fold max xs a"
proof (induction xs arbitrary: a)
  case Nil
  then show ?case by simp
next
  case (Cons y ys)
  show ?case
  proof (cases "x = y")
    case True
    have "x \<le> max y a" using True by simp
    also have "\<dots> \<le> fold max ys (max y a)" by (rule fold_max_lower)
    finally show ?thesis by simp
  next
    case False
    with Cons.prems have "x \<in> set ys" by simp
    then show ?thesis using Cons.IH by simp
  qed
qed

lemma next_id_above: "x \<in> set ids \<Longrightarrow> x < next_id ids"
  using fold_max_upper [of x ids 0] by (simp add: next_id_def)

lemma next_id_fresh: "next_id ids \<notin> set ids"
  using next_id_above [of "next_id ids" ids] by auto

section \<open>Editing and deleting messages\<close>

lemma map_unchanged:
  "(\<And>x. x \<in> set xs \<Longrightarrow> f x = x) \<Longrightarrow> map f xs = xs"
  by (induction xs) auto

lemma distinct_map_same_key:
  "distinct (map k xs) \<Longrightarrow> x \<in> set xs \<Longrightarrow> y \<in> set xs \<Longrightarrow> k x = k y \<Longrightarrow> x = y"
  by (induction xs) (auto simp: image_iff)

text \<open>
  Claim C3. When a user who is not the sender of a stored message M calls editMessage on M's
  id, the action answers success (no error signal) and M stays in the table as it was, at
  the same position, text and edited flag included; the ids of the table are unchanged, and
  where ids are unique (the primary key) the whole store is unchanged.
\<close>

theorem editMessage_by_non_sender_is_silent_noop:
  assumes "M \<in> set (messages d)" and "m_senderId M \<noteq> au_id E"
    and "editMessage (Some E) (m_id M) newText d = (d', r)"
  shows "r = Success () \<and> M \<in> set (messages d')
       \<and> map m_id (messages d') = map m_id (messages d)
       \<and> (\<forall>i < length (messages d). messages d ! i = M \<longrightarrow> messages d' ! i = M)
       \<and> (distinct (map m_id (messages d)) \<longrightarrow> d' = d)"
proof -
  let ?f = "\<lambda>m. if m_id m = m_id M \<and> m_senderId m = au_id E
                 then m\<lparr>m_text := Some newText, m_isEdited := Some True\<rparr> else m"
  from assms(3) have r: "r = Success ()" and d': "d' = d\<lparr>messages := map ?f (messages d)\<rparr>"
    by (simp_all add: editMessage_def)
  have fM: "?f M = M" using assms(2) by simp
  have in': "M \<in> set (messages d')"
    using assms(1) fM unfolding d' by (force simp: image_iff)
  have ids: "map m_id (messages d') = map m_id (messages d)"
    unfolding d' by simp
  have pos: "\<forall>i < length (messages d). messages d ! i = M \<longrightarrow> messages d' ! i = M"
    unfolding d' using assms(2) by simp
  have whole: "d' = d" if dist: "distinct (map m_id (messages d))"
  proof -
    have "?f x = x" if "x \<in> set (messages d)" for x
    proof (cases "m_id x = m_id M")
      case True
      with dist that assms(1) have "x = M" by (rule distinct_map_same_key)
      with assms(2) show ?thesis by simp
    next
      case False
      then show ?thesis by simp
    qed
    then have "map ?f (messages d) = messages d" by (rule map_unchanged)
    then show ?thesis unfolding d' by simp
  qed
  from r in' ids pos whole show ?thesis by blast
qed

lemmas ex_defs = ex_alice_def ex_bob_def ex_msg_def ex_users_def ex_db_def token_of_def

theorem editMessage_by_non_sender_witness:
  "editMessage (Some (token_of ex_alice)) 1 ''changed'' ex_db = (ex_db, Success ())
   \<and> ex_msg \<in> set (messages ex_db) \<and> m_senderId ex_msg \<noteq> au_id (token_of ex_alice)"
proof -
  have a: "ex_msg \<in> set (messages ex_db)" by (simp add: ex_db_def)
  have b: "m_senderId ex_msg \<noteq> au_id (token_of ex_alice)" by (simp add: ex_defs)
  have c: "m_id ex_msg = 1" by (simp add: ex_msg_def)
  have dist: "distinct (map m_id (messages ex_db))" by (simp add: ex_db_def)
  obtain d' r where e: "editMessage (Some (token_of ex_alice)) (m_id ex_msg) ''changed'' ex_db = (d', r)"
    by (cases "editMessage (Some (token_of ex_alice)) (m_id ex_msg) ''changed'' ex_db") 
  from editMessage_by_non_sender_is_silent_noop [OF a b e] dist have "r = Success ()" "d' = ex_db"
    by blast+
  with e c a b show ?thesis by simp
qed

section \<open>Ordering and lookup lemmas\<close>

lemma set_insort_by: "set (insort_by le x xs) = insert x (set xs)"
  by (induction xs) auto

lemma set_sort_by: "set (sort_by le xs) = set xs"
  by (induction xs) (auto simp: sort_by_def set_insort_by)

lemma mset_insort_by: "mset (insort_by le x xs) = add_mset x (mset xs)"
  by (induction xs) auto

lemma mset_sort_by: "mset (sort_by le xs) = mset xs"
  by (induction xs) (auto simp: sort_by_def mset_insort_by)

lemma length_sort_by: "length (sort_by le xs) = length xs"
  using mset_sort_by [of le xs] by (metis size_mset)

lemma sorted_insort_by:
  assumes total: "\<And>a b. le a b \<or> le b a" and trans: "\<And>a b c. le a b \<Longrightarrow> le b c \<Longrightarrow> le a c"
  shows "sorted_wrt le xs \<Longrightarrow> sorted_wrt le (insort_by le x xs)"
proof (induction xs)
  case Nil
  then show ?case by simp
next
  case (Cons y ys)
  show ?case
  proof (cases "le x y")
    case True
    with Cons.prems trans show ?thesis by auto
  next
    case False
    with total have "le y x" by blast
    with Cons False show ?thesis by (auto simp: set_insort_by)
  qed
qed

lemma sorted_sort_by:
  assumes total: "\<And>a b. le a b \<or> le b a" and trans: "\<And>a b c. le a b \<Longrightarrow> le b c \<Longrightarrow> le a c"
  shows "sorted_wrt le (sort_by le xs)"
proof (induction xs)
  case Nil
  show ?case by (simp add: sort_by_def)
next
  case (Cons x xs)
  have "sort_by le (x # xs) = insort_by le x (sort_by le xs)" by (simp add: sort_by_def)
  with Cons sorted_insort_by [of le, OF total trans] show ?case by simp
qed

lemma filter_key_singleton:
  "distinct (map k xs) \<Longrightarrow> y \<in> set xs \<Longrightarrow> [x \<leftarrow> xs. k x = k y] = [y]"
proof (induction xs)
  case Nil
  then show ?case by simp
next
  case (Cons a xs)
  show ?case
  proof (cases "a = y")
    case True
    with Cons.prems have "\<forall>x \<in> set xs. k x \<noteq> k y" by (auto simp: image_iff)
    then have "[x \<leftarrow> xs. k x = k y] = []" by (simp add: filter_empty_conv)
    with True show ?thesis by simp
  next
    case False
    with Cons.prems have "y \<in> set xs" "k a \<noteq> k y" by (auto simp: image_iff)
    with Cons show ?thesis by simp
  qed
qed

section \<open>Soft delete\<close>

lemma joined_messages_member:
  assumes "m \<in> set (messages d)" and "m_chatId m = chatId" and "u \<in> set (users d)"
    and "u_id u = m_senderId m"
  shows "message_row_of m u \<in> set (joined_messages d chatId)"
  using assms unfolding joined_messages_def by auto

lemma getChatMessages_set:
  "set (getChatMessages (Some V) chatId d) = set (joined_messages d chatId)"
  by (simp add: getChatMessages_def set_sort_by)

text \<open>
  Claim C4. When the sender of a stored message M deletes it, the action answers success, the
  other three tables are untouched, M's row becomes M with the deleted flag set to true and
  nothing else changed (the text stays), rows with another id are untouched, and, the sender
  having a users row, getChatMessages for M's chat (for any caller) still lists a row with
  M's id, its deleted flag set and M's original text.
\<close>

theorem deleteMessage_by_sender_sets_only_deleted_flag:
  assumes "M \<in> set (messages d)" and "m_senderId M = au_id E" and "user_exists d (au_id E)"
    and "deleteMessage (Some E) (m_id M) d = (d', r)"
  shows "r = Success ()
       \<and> users d' = users d \<and> chats d' = chats d \<and> chatMembers d' = chatMembers d
       \<and> length (messages d') = length (messages d)
       \<and> (\<forall>i < length (messages d).
             messages d ! i = M \<longrightarrow> messages d' ! i = M\<lparr>m_isDeleted := Some True\<rparr>)
       \<and> (\<forall>i < length (messages d).
             m_id (messages d ! i) \<noteq> m_id M \<longrightarrow> messages d' ! i = messages d ! i)
       \<and> (\<exists>row \<in> set (getChatMessages (Some V) (m_chatId M) d').
             mr_id row = m_id M \<and> mr_chatId row = m_chatId M \<and> mr_senderId row = m_senderId M
             \<and> mr_text row = m_text M \<and> mr_replyToId row = m_replyToId M
             \<and> mr_isEdited row = m_isEdited M \<and> mr_createdAt row = m_createdAt M
             \<and> mr_isDeleted row = Some True)"
proof -
  let ?f = "\<lambda>m. if m_id m = m_id M \<and> m_senderId m = au_id E
                 then m\<lparr>m_isDeleted := Some True\<rparr> else m"
  let ?M' = "M\<lparr>m_isDeleted := Some True\<rparr>"
  from assms(4) have r: "r = Success ()" and d': "d' = d\<lparr>messages := map ?f (messages d)\<rparr>"
    by (simp_all add: deleteMessage_def)
  have frame: "users d' = users d \<and> chats d' = chats d \<and> chatMembers d' = chatMembers d
       \<and> length (messages d') = length (messages d)"
    unfolding d' by simp
  have pos: "\<forall>i < length (messages d). messages d ! i = M \<longrightarrow> messages d' ! i = ?M'"
    unfolding d' using assms(2) by simp
  have others: "\<forall>i < length (messages d).
             m_id (messages d ! i) \<noteq> m_id M \<longrightarrow> messages d' ! i = messages d ! i"
    unfolding d' by simp
  have "?f M \<in> ?f ` set (messages d)" using assms(1) by (rule imageI)
  then have in': "?M' \<in> set (messages d')"
    unfolding d' using assms(2) by simp
  from assms(3) obtain u where u: "u \<in> set (users d)" "u_id u = au_id E"
    by (auto simp: user_exists_def)
  then have "u \<in> set (users d')" "u_id u = m_senderId ?M'"
    using assms(2) frame by simp_all
  with in' have "message_row_of ?M' u \<in> set (joined_messages d' (m_chatId M))"
    by (intro joined_messages_member) simp_all
  then have "message_row_of ?M' u \<in> set (getChatMessages (Some V) (m_chatId M) d')"
    by (simp add: getChatMessages_set)
  moreover have "mr_id (message_row_of ?M' u) = m_id M
       \<and> mr_chatId (message_row_of ?M' u) = m_chatId M
       \<and> mr_senderId (message_row_of ?M' u) = m_senderId M
       \<and> mr_text (message_row_of ?M' u) = m_text M
       \<and> mr_replyToId (message_row_of ?M' u) = m_replyToId M
       \<and> mr_isEdited (message_row_of ?M' u) = m_isEdited M
       \<and> mr_createdAt (message_row_of ?M' u) = m_createdAt M
       \<and> mr_isDeleted (message_row_of ?M' u) = Some True"
    by (simp add: message_row_of_def)
  ultimately have listed: "\<exists>row \<in> set (getChatMessages (Some V) (m_chatId M) d').
             mr_id row = m_id M \<and> mr_chatId row = m_chatId M \<and> mr_senderId row = m_senderId M
             \<and> mr_text row = m_text M \<and> mr_replyToId row = m_replyToId M
             \<and> mr_isEdited row = m_isEdited M \<and> mr_createdAt row = m_createdAt M
             \<and> mr_isDeleted row = Some True"
    by blast
  from r frame pos others listed show ?thesis by blast
qed

theorem deleteMessage_by_sender_witness:
  "ex_msg \<in> set (messages ex_db) \<and> m_senderId ex_msg = au_id (token_of ex_bob)
   \<and> user_exists ex_db (au_id (token_of ex_bob))
   \<and> deleteMessage (Some (token_of ex_bob)) (m_id ex_msg) ex_db
       = (ex_db\<lparr>messages := [ex_msg\<lparr>m_isDeleted := Some True\<rparr>]\<rparr>, Success ())
   \<and> (\<exists>row \<in> set (getChatMessages (Some (token_of ex_alice)) 1
                      (ex_db\<lparr>messages := [ex_msg\<lparr>m_isDeleted := Some True\<rparr>]\<rparr>)).
         mr_id row = 1 \<and> mr_text row = Some ''yo'' \<and> mr_isDeleted row = Some True)"
proof -
  have a: "ex_msg \<in> set (messages ex_db)" by (simp add: ex_db_def)
  have b: "m_senderId ex_msg = au_id (token_of ex_bob)" by (simp add: ex_defs)
  have c: "user_exists ex_db (au_id (token_of ex_bob))" by (simp add: ex_defs user_exists_def)
  have e: "deleteMessage (Some (token_of ex_bob)) (m_id ex_msg) ex_db
       = (ex_db\<lparr>messages := [ex_msg\<lparr>m_isDeleted := Some True\<rparr>]\<rparr>, Success ())"
    by (simp add: ex_defs deleteMessage_def)
  from deleteMessage_by_sender_sets_only_deleted_flag [OF a b c e, of "token_of ex_alice"]
  have "\<exists>row \<in> set (getChatMessages (Some (token_of ex_alice)) (m_chatId ex_msg)
                      (ex_db\<lparr>messages := [ex_msg\<lparr>m_isDeleted := Some True\<rparr>]\<rparr>)).
         mr_id row = m_id ex_msg \<and> mr_text row = m_text ex_msg \<and> mr_isDeleted row = Some True"
    by blast
  then have "\<exists>row \<in> set (getChatMessages (Some (token_of ex_alice)) 1
                      (ex_db\<lparr>messages := [ex_msg\<lparr>m_isDeleted := Some True\<rparr>]\<rparr>)).
         mr_id row = 1 \<and> mr_text row = Some ''yo'' \<and> mr_isDeleted row = Some True"
    by (simp add: ex_msg_def)
  with a b c e show ?thesis by blast
qed

section \<open>Sending messages\<close>

lemma trim_examples: "trim [] = []" "trim ''   '' = []" "trim ''  hi  '' = ''hi''"
  by (simp_all add: trim_def is_space_def)

text \<open>
  Claim C5. For an authenticated sender, sendMessage with a text that is empty after trimming
  (the empty text and three blanks among them) returns the validation error and leaves the
  store as it was. With any text that is not empty after trimming, the chat and the sender
  existing where the store enforces its references, it succeeds and appends exactly one
  message row, whose body is the trimmed text and which carries the chat, the sender, the
  current time, the reply target as given and both flags false; in particular the text
  "  hi  " is stored as "hi".
\<close>

theorem sendMessage_rejects_blank_and_stores_trimmed:
  "(trim text = [] \<longrightarrow>
      sendMessage (Some cu) now chatId text replyToId d = (d, ErrorResult ''Message cannot be empty''))
   \<and> sendMessage (Some cu) now chatId [] replyToId d = (d, ErrorResult ''Message cannot be empty'')
   \<and> sendMessage (Some cu) now chatId ''   '' replyToId d
        = (d, ErrorResult ''Message cannot be empty'')
   \<and> (trim text \<noteq> [] \<and> (foreignKeys d \<longrightarrow> chat_exists d chatId \<and> user_exists d (au_id cu)) \<longrightarrow>
        (\<exists>row. sendMessage (Some cu) now chatId text replyToId d
                  = (d\<lparr>messages := messages d @ [row]\<rparr>, Success row)
             \<and> m_text row = Some (trim text) \<and> m_chatId row = chatId
             \<and> m_senderId row = au_id cu \<and> m_createdAt row = Some now
             \<and> m_replyToId row = reply_or_null replyToId
             \<and> m_isEdited row = Some False \<and> m_isDeleted row = Some False
             \<and> m_id row \<notin> set (map m_id (messages d))))
   \<and> ((foreignKeys d \<longrightarrow> chat_exists d chatId \<and> user_exists d (au_id cu)) \<longrightarrow>
        (\<exists>row. sendMessage (Some cu) now chatId ''  hi  '' replyToId d
                  = (d\<lparr>messages := messages d @ [row]\<rparr>, Success row)
             \<and> m_text row = Some ''hi'' \<and> m_chatId row = chatId \<and> m_senderId row = au_id cu))"
proof -
  have rej: "sendMessage (Some cu) now chatId t replyToId d
        = (d, ErrorResult ''Message cannot be empty'')" if "trim t = []" for t
    using that by (simp add: sendMessage_def)
  have stored: "\<exists>row. sendMessage (Some cu) now chatId t replyToId d
                  = (d\<lparr>messages := messages d @ [row]\<rparr>, Success row)
             \<and> m_text row = Some (trim t) \<and> m_chatId row = chatId
             \<and> m_senderId row = au_id cu \<and> m_createdAt row = Some now
             \<and> m_replyToId row = reply_or_null replyToId
             \<and> m_isEdited row = Some False \<and> m_isDeleted row = Some False
             \<and> m_id row \<notin> set (map m_id (messages d))"
    if "trim t \<noteq> []" "foreignKeys d \<longrightarrow> chat_exists d chatId \<and> user_exists d (au_id cu)" for t
  proof -
    let ?row = "\<lparr> m_id = next_id (map m_id (messages d)), m_chatId = chatId,
                   m_senderId = au_id cu, m_text = Some (trim t),
                   m_replyToId = reply_or_null replyToId,
                   m_isEdited = Some False, m_isDeleted = Some False,
                   m_createdAt = Some now \<rparr>"
    from that have "sendMessage (Some cu) now chatId t replyToId d
                  = (d\<lparr>messages := messages d @ [?row]\<rparr>, Success ?row)"
      by (auto simp: sendMessage_def insert_message_def Let_def)
    moreover have "m_id ?row \<notin> set (map m_id (messages d))"
      using next_id_fresh [of "map m_id (messages d)"] by simp
    ultimately show ?thesis by (intro exI [of _ ?row]) simp
  qed
  have hi: "\<exists>row. sendMessage (Some cu) now chatId ''  hi  '' replyToId d
                  = (d\<lparr>messages := messages d @ [row]\<rparr>, Success row)
             \<and> m_text row = Some ''hi'' \<and> m_chatId row = chatId \<and> m_senderId row = au_id cu"
    if "foreignKeys d \<longrightarrow> chat_exists d chatId \<and> user_exists d (au_id cu)"
    using stored [of "''  hi  ''"] that by (auto simp: trim_examples)
  note b1 = rej [of "text"] and b2 = rej [OF trim_examples(1)] and b3 = rej [OF trim_examples(2)]
  from b1 b2 b3 stored [of "text"] hi show ?thesis by blast
qed

theorem sendMessage_witness:
  "trim ''   '' = []
   \<and> sendMessage (Some (token_of ex_bob)) 12 1 ''   '' None ex_db
       = (ex_db, ErrorResult ''Message cannot be empty'')
   \<and> trim '' see you at 5 '' = ''see you at 5''
   \<and> chat_exists ex_db 1 \<and> user_exists ex_db (au_id (token_of ex_bob))
   \<and> (\<exists>row. sendMessage (Some (token_of ex_bob)) 12 1 '' see you at 5 '' (Some 1) ex_db
                = (ex_db\<lparr>messages := [ex_msg, row]\<rparr>, Success row)
           \<and> m_text row = Some ''see you at 5'' \<and> m_replyToId row = Some 1)
   \<and> fst (sendMessage (Some (token_of ex_bob)) 12 1 ''  hi  '' None ex_db)
       = ex_db\<lparr>messages := [ex_msg,
            \<lparr> m_id = 2, m_chatId = 1, m_senderId = 2, m_text = Some ''hi'', m_replyToId = None,
              m_isEdited = Some False, m_isDeleted = Some False, m_createdAt = Some 12 \<rparr>]\<rparr>"
proof -
  have t: "trim ''   '' = []" by (rule trim_examples)
  have t2: "trim '' see you at 5 '' = ''see you at 5''" by (simp add: trim_def is_space_def)
  have fk: "chat_exists ex_db 1" "user_exists ex_db (au_id (token_of ex_bob))"
    by (simp_all add: ex_defs chat_exists_def user_exists_def)
  from sendMessage_rejects_blank_and_stores_trimmed
         [of "''   ''" "token_of ex_bob" 12 1 None ex_db] t
  have rej: "sendMessage (Some (token_of ex_bob)) 12 1 ''   '' None ex_db
       = (ex_db, ErrorResult ''Message cannot be empty'')"
    by blast
  have ne: "trim '' see you at 5 '' \<noteq> []" by (simp add: t2)
  from sendMessage_rejects_blank_and_stores_trimmed
         [of "'' see you at 5 ''" "token_of ex_bob" 12 1 "Some 1" ex_db] ne fk
  have "\<exists>row. sendMessage (Some (token_of ex_bob)) 12 1 '' see you at 5 '' (Some 1) ex_db
                = (ex_db\<lparr>messages := messages ex_db @ [row]\<rparr>, Success row)
           \<and> m_text row = Some (trim '' see you at 5 '')
           \<and> m_replyToId row = reply_or_null (Some 1)"
    by blast
  then have sent: "\<exists>row. sendMessage (Some (token_of ex_bob)) 12 1 '' see you at 5 '' (Some 1) ex_db
                = (ex_db\<lparr>messages := [ex_msg, row]\<rparr>, Success row)
           \<and> m_text row = Some ''see you at 5'' \<and> m_replyToId row = Some 1"
    by (simp add: t2 reply_or_null_def ex_db_def)
  have "fst (sendMessage (Some (token_of ex_bob)) 12 1 ''  hi  '' None ex_db)
       = ex_db\<lparr>messages := [ex_msg,
            \<lparr> m_id = 2, m_chatId = 1, m_senderId = 2, m_text = Some ''hi'', m_replyToId = None,
              m_isEdited = Some False, m_isDeleted = Some False, m_createdAt = Some 12 \<rparr>]\<rparr>"
    by (simp add: sendMessage_def insert_message_def trim_examples ex_defs chat_exists_def
          user_exists_def reply_or_null_def next_id_def Let_def)
  with t t2 fk rej sent show ?thesis by blast
qed

section \<open>Searching users\<close>

text \<open>
  Claim C7. Whatever the session, the query and the store, searchUsers returns at most 20 rows,
  and for an authenticated requester none of them carries the requester's identifier.
\<close>

theorem searchUsers_excludes_requester_and_caps:
  "length (searchUsers currentUser query d) \<le> 20
   \<and> (\<forall>cu. currentUser = Some cu \<longrightarrow> au_id cu \<notin> set (map uh_id (searchUsers currentUser query d)))"
proof -
  have cap: "length (searchUsers currentUser query d) \<le> 20"
  proof (cases currentUser)
    case None
    then show ?thesis by (simp add: searchUsers_def)
  next
    case (Some cu)
    have "length [u \<leftarrow> take 20 xs. uh_id u \<noteq> au_id cu] \<le> 20" for xs :: "user_hit list"
      using length_filter_le [of "\<lambda>u. uh_id u \<noteq> au_id cu" "take 20 xs"] by simp
    with Some show ?thesis by (simp add: searchUsers_def Let_def)
  qed
  have excl: "au_id cu \<notin> set (map uh_id (searchUsers (Some cu) query d))" for cu
    by (auto simp: searchUsers_def Let_def)
  from cap excl show ?thesis by blast
qed

theorem searchUsers_witness:
  "like (u_username ex_alice) (''%'' @ toLowerCase ''ALI'' @ ''%'')
   \<and> au_id (token_of ex_alice) \<notin> set (map uh_id (searchUsers (Some (token_of ex_alice)) ''ALI'' ex_db))
   \<and> map uh_id (searchUsers (Some (token_of ex_bob)) ''ALI'' ex_db) = [1]"
proof -
  have low: "toLowerCase ''ALI'' = ''ali''"
    by code_simp
  have m: "like (u_username ex_alice) (''%'' @ toLowerCase ''ALI'' @ ''%'')"
    unfolding low by (simp add: ex_alice_def ascii_lower_def)
  have r: "map uh_id (searchUsers (Some (token_of ex_bob)) ''ALI'' ex_db) = [1]"
    unfolding searchUsers_def low
    by (simp add: ex_defs trim_def is_space_def ascii_lower_def user_hit_of_def)
  from searchUsers_excludes_requester_and_caps [of "Some (token_of ex_alice)" "''ALI''" ex_db]
  have "au_id (token_of ex_alice)
          \<notin> set (map uh_id (searchUsers (Some (token_of ex_alice)) ''ALI'' ex_db))"
    by blast
  with m r show ?thesis by blast
qed

section \<open>Reading a chat's messages\<close>

lemma set_joined_messages:
  "set (joined_messages d chatId)
     = {message_row_of m u | m u. m \<in> set (messages d) \<and> m_chatId m = chatId
                                  \<and> u \<in> set (users d) \<and> u_id u = m_senderId m}"
  unfolding joined_messages_def by auto

lemma joined_messages_ids:
  assumes "distinct (map u_id (users d))"
    and "\<forall>m \<in> set (messages d). user_exists d (m_senderId m)"
  shows "map mr_id (joined_messages d chatId) = map m_id [m \<leftarrow> messages d. m_chatId m = chatId]"
proof -
  have one: "map mr_id (map (message_row_of m) [u \<leftarrow> users d. u_id u = m_senderId m]) = [m_id m]"
    if "m \<in> set (messages d)" for m
  proof -
    from that assms(2) obtain u where u: "u \<in> set (users d)" "u_id u = m_senderId m"
      by (auto simp: user_exists_def)
    with assms(1) have "[x \<leftarrow> users d. u_id x = u_id u] = [u]"
      by (intro filter_key_singleton)
    with u show ?thesis by (simp add: message_row_of_def)
  qed
  have "map mr_id (concat (map (\<lambda>m. map (message_row_of m) [u \<leftarrow> users d. u_id u = m_senderId m]) ms))
          = map m_id ms" if "set ms \<subseteq> set (messages d)" for ms
    using that by (induction ms) (simp_all add: one del: map_map)
  then show ?thesis unfolding joined_messages_def by simp
qed

text \<open>
  Claim C10. For any two authenticated callers, members of the chat or not, getChatMessages
  of a chat returns the same list: the rows of that chat's messages joined with their senders,
  with no check of the caller. Where every sender has its one users row (user ids being the
  primary key), these are the messages of the chat, each once.
\<close>

theorem getChatMessages_ignores_caller:
  "getChatMessages (Some U) chatId d = getChatMessages (Some V) chatId d
   \<and> set (getChatMessages (Some U) chatId d)
       = {message_row_of m u | m u. m \<in> set (messages d) \<and> m_chatId m = chatId
                                    \<and> u \<in> set (users d) \<and> u_id u = m_senderId m}
   \<and> (distinct (map u_id (users d)) \<and> (\<forall>m \<in> set (messages d). user_exists d (m_senderId m))
        \<longrightarrow> mset (map mr_id (getChatMessages (Some U) chatId d))
              = mset (map m_id [m \<leftarrow> messages d. m_chatId m = chatId]))"
proof -
  have same: "getChatMessages (Some U) chatId d = getChatMessages (Some V) chatId d"
    by (simp add: getChatMessages_def)
  have rows: "set (getChatMessages (Some U) chatId d)
       = {message_row_of m u | m u. m \<in> set (messages d) \<and> m_chatId m = chatId
                                    \<and> u \<in> set (users d) \<and> u_id u = m_senderId m}"
    by (simp only: getChatMessages_set set_joined_messages)
  have full: "mset (map mr_id (getChatMessages (Some U) chatId d))
              = mset (map m_id [m \<leftarrow> messages d. m_chatId m = chatId])"
    if "distinct (map u_id (users d))" "\<forall>m \<in> set (messages d). user_exists d (m_senderId m)"
  proof -
    have "mset (map mr_id (getChatMessages (Some U) chatId d))
            = image_mset mr_id (mset (joined_messages d chatId))"
      by (simp add: getChatMessages_def mset_sort_by)
    also have "\<dots> = mset (map mr_id (joined_messages d chatId))" by simp
    also have "\<dots> = mset (map m_id [m \<leftarrow> messages d. m_chatId m = chatId])"
      using joined_messages_ids [OF that] by simp
    finally show ?thesis .
  qed
  from same rows full show ?thesis by blast
qed

theorem getChatMessages_witness:
  "member_chats ex_db (au_id ex_carol) = []
   \<and> distinct (map u_id (users ex_db))
   \<and> list_all (\<lambda>m. user_exists ex_db (m_senderId m)) (messages ex_db)
   \<and> getChatMessages (Some ex_carol) 1 ex_db = getChatMessages (Some (token_of ex_bob)) 1 ex_db
   \<and> mset (map mr_id (getChatMessages (Some ex_carol) 1 ex_db)) = {#1#}"
proof -
  have nm: "member_chats ex_db (au_id ex_carol) = []"
    by (simp add: member_chats_def ex_defs ex_carol_def)
  have h: "distinct (map u_id (users ex_db)) \<and> (\<forall>m \<in> set (messages ex_db). user_exists ex_db (m_senderId m))"
    by (simp add: ex_defs user_exists_def)
  note inst = getChatMessages_ignores_caller [of ex_carol 1 ex_db "token_of ex_bob"]
  from inst have same: "getChatMessages (Some ex_carol) 1 ex_db = getChatMessages (Some (token_of ex_bob)) 1 ex_db"
    by blast
  from inst h have "mset (map mr_id (getChatMessages (Some ex_carol) 1 ex_db))
              = mset (map m_id [m \<leftarrow> messages ex_db. m_chatId m = 1])"
    by blast
  then have "mset (map mr_id (getChatMessages (Some ex_carol) 1 ex_db)) = {#1#}"
    by (simp add: ex_defs)
  with nm h same show ?thesis by (simp add: list_all_iff)
qed

section \<open>Registration\<close>

lemma registerAction_duplicate:
  assumes "formData ''phone'' = Some phone" and "formData ''username'' = Some username"
    and "formData ''displayName'' = Some displayName" and "formData ''password'' = Some password"
    and "phone \<noteq> []" and "displayName \<noteq> []" and "6 \<le> length password"
    and "username_ok username"
    and "phone \<in> set (map u_phone (users d)) \<or> username \<in> set (map u_username (users d))"
  shows "registerAction hash now formData d = (d, DuplicateError)"
proof -
  from assms(8) have "username \<noteq> []" by (simp add: username_ok_def)
  moreover from assms(7) have "password \<noteq> []" by auto
  moreover from assms(9) have "[u \<leftarrow> users d. u_phone u = phone \<or> u_username u = username] \<noteq> []"
    by (auto simp: filter_empty_conv)
  ultimately show ?thesis
    using assms(1-8) by (simp add: registerAction_def DuplicateError_def)
qed

text \<open>
  Claim C2, as the code has it. A registration that passes the field checks, with a fresh phone
  and a username that is not stored as written but whose lowercase form is stored (a case
  variant of an existing username), is not answered with DuplicateError: the lookup compares
  the username as typed, finds nothing, and the insert of the lowercased username then fails
  on the unique index, which leaves the action as an exception of the store. No user is created.
\<close>

theorem registerAction_case_variant_raises:
  assumes "formData ''phone'' = Some phone" and "formData ''username'' = Some username"
    and "formData ''displayName'' = Some displayName" and "formData ''password'' = Some password"
    and "phone \<noteq> []" and "displayName \<noteq> []" and "6 \<le> length password"
    and "username_ok username"
    and "toLowerCase username \<in> set (map u_username (users d))"
    and "username \<notin> set (map u_username (users d))"
    and "phone \<notin> set (map u_phone (users d))"
  shows "registerAction hash now formData d = (d, Raised UniqueViolation)
       \<and> snd (registerAction hash now formData d) \<noteq> DuplicateError"
proof -
  from assms(8) have "username \<noteq> []" by (simp add: username_ok_def)
  moreover from assms(7) have "password \<noteq> []" by auto
  moreover from assms(10,11)
  have "[u \<leftarrow> users d. u_phone u = phone \<or> u_username u = username] = []"
    by (auto simp: filter_empty_conv)
  moreover from assms(9)
  have "insert_user now phone (toLowerCase username) displayName (hash password) d
          = Inl UniqueViolation"
    by (simp add: insert_user_def)
  ultimately have "registerAction hash now formData d = (d, Raised UniqueViolation)"
    using assms(1-8) by (simp add: registerAction_def)
  then show ?thesis by (simp add: DuplicateError_def)
qed

theorem registerAction_case_variant_witness:
  "ex_alice \<in> set (users ex_users) \<and> u_username ex_alice = toLowerCase ''Alice''
   \<and> ex_register_form ''username'' = Some ''Alice''
   \<and> registerAction id 20 ex_register_form ex_users = (ex_users, Raised UniqueViolation)"
proof -
  have low: "toLowerCase ''Alice'' = ''alice''" by code_simp
  have f: "ex_register_form ''phone'' = Some ''333''" "ex_register_form ''username'' = Some ''Alice''"
    "ex_register_form ''displayName'' = Some ''Alice Two''"
    "ex_register_form ''password'' = Some ''secret1''"
    by (simp_all add: ex_register_form_def)
  have ok: "username_ok ''Alice''" by code_simp
  have a: "toLowerCase ''Alice'' \<in> set (map u_username (users ex_users))"
    unfolding low by (simp add: ex_defs)
  have b: "''Alice'' \<notin> set (map u_username (users ex_users))" by (simp add: ex_defs)
  have c: "''333'' \<notin> set (map u_phone (users ex_users))" by (simp add: ex_defs)
  have "registerAction id 20 ex_register_form ex_users = (ex_users, Raised UniqueViolation)"
    using registerAction_case_variant_raises [OF f _ _ _ ok a b c, of id 20] by simp
  moreover have "ex_alice \<in> set (users ex_users)" by (simp add: ex_defs)
  moreover have "u_username ex_alice = toLowerCase ''Alice''"
    unfolding low by (simp add: ex_defs)
  ultimately show ?thesis using f(2) by blast
qed

section \<open>Profile update\<close>





section \<open>Private chats\<close>

lemma find_private_append:
  "find_private d t (xs @ ys)
     = (case find_private d t xs of Some c \<Rightarrow> Some c | None \<Rightarrow> find_private d t ys)"
  by (induction xs) auto

lemma find_private_None: "find_private d t xs = None \<longleftrightarrow> (\<forall>c \<in> set xs. \<not> private_match d t c)"
  by (induction xs) auto

lemma find_private_Some:
  "find_private d t xs = Some c \<Longrightarrow> c \<in> set xs \<and> private_match d t c"
  by (induction xs) (auto split: if_splits)

lemma find_private_cong:
  "(\<And>c. c \<in> set xs \<Longrightarrow> private_match d t c = private_match d' t c)
     \<Longrightarrow> find_private d t xs = find_private d' t xs"
  by (induction xs) auto

text \<open>The store after createPrivateChat has inserted a chat and its two membership rows.\<close>

lemma created_private_chat_found:
  fixes d :: db and a b :: int
  defines "n \<equiv> next_id (map c_id (chats d))"
  assumes refs: "members_refer_to_chats d"
    and none: "find_private d b (member_chats d a) = None"
    and d2: "chats d2 = chats d @ [newChat]" "c_id newChat = n" "c_type newChat = Private"
      "chatMembers d2 = chatMembers d @ [r1, r2]"
      "cm_chatId r1 = n" "cm_userId r1 = a" "cm_chatId r2 = n" "cm_userId r2 = b"
  shows "find_private d2 b (member_chats d2 a) = Some n"
proof -
  have old_ne: "cm_chatId m \<noteq> n" if "m \<in> set (chatMembers d)" for m
  proof -
    from refs that have "cm_chatId m \<in> set (map c_id (chats d))"
      by (auto simp: members_refer_to_chats_def list_all_iff chat_exists_def)
    then have "cm_chatId m < n" unfolding n_def by (rule next_id_above)
    then show ?thesis by simp
  qed
  have old_chat_ne: "c_id c \<noteq> n" if "c \<in> set (chats d)" for c
  proof -
    from that have "c_id c \<in> set (map c_id (chats d))" by simp
    then have "c_id c < n" unfolding n_def by (rule next_id_above)
    then show ?thesis by simp
  qed
  have same: "private_match d b c = private_match d2 b c" if "c \<noteq> n" for c
  proof -
    from that have "[m \<leftarrow> chatMembers d2. cm_chatId m = c] = [m \<leftarrow> chatMembers d. cm_chatId m = c]"
      using d2 by auto
    moreover from that
    have "[x \<leftarrow> chats d2. c_id x = c \<and> c_type x = Private]
            = [x \<leftarrow> chats d. c_id x = c \<and> c_type x = Private]"
      using d2 by auto
    ultimately show ?thesis by (simp add: private_match_def)
  qed
  have "[m \<leftarrow> chatMembers d. cm_chatId m = n] = []"
    using old_ne by (auto simp: filter_empty_conv)
  then have "[m \<leftarrow> chatMembers d2. cm_chatId m = n] = [r1, r2]"
    using d2 by simp
  moreover have "[x \<leftarrow> chats d2. c_id x = n \<and> c_type x = Private] \<noteq> []"
    using d2 by (simp add: filter_empty_conv)
  ultimately have new: "private_match d2 b n"
    using d2 by (simp add: private_match_def)
  have olds: "\<forall>c \<in> set (member_chats d a). c \<noteq> n"
    using old_ne by (auto simp: member_chats_def)
  have "find_private d2 b (member_chats d a) = find_private d b (member_chats d a)"
    using olds same by (intro find_private_cong) auto
  with none have first: "find_private d2 b (member_chats d a) = None" by simp
  have "member_chats d2 a = member_chats d a @ (n # (if b = a then [n] else []))"
    using d2 by (simp add: member_chats_def)
  then show ?thesis
    using first new by (simp add: find_private_append)
qed

lemma createPrivateChat_creates:
  assumes none: "find_private d b (member_chats d (au_id A)) = None"
    and fk: "foreignKeys d \<longrightarrow> user_exists d (au_id A) \<and> user_exists d b"
  shows "\<exists>d2 newChat r1 r2.
           createPrivateChat (Some A) now b d = (d2, Success (next_id (map c_id (chats d))))
           \<and> chats d2 = chats d @ [newChat] \<and> c_id newChat = next_id (map c_id (chats d))
           \<and> c_type newChat = Private
           \<and> chatMembers d2 = chatMembers d @ [r1, r2]
           \<and> cm_chatId r1 = next_id (map c_id (chats d)) \<and> cm_userId r1 = au_id A
           \<and> cm_chatId r2 = next_id (map c_id (chats d)) \<and> cm_userId r2 = b
           \<and> users d2 = users d \<and> messages d2 = messages d \<and> foreignKeys d2 = foreignKeys d"
  using none fk
  by (simp add: createPrivateChat_def insert_chat_def insert_chat_members_def Let_def
        chat_exists_def user_exists_def)

lemma createPrivateChat_existing:
  "find_private d b (member_chats d (au_id A)) = Some c
     \<Longrightarrow> createPrivateChat (Some A) now b d = (d, Success c)"
  by (simp add: createPrivateChat_def)

text \<open>
  Claim C1. In a store whose membership rows refer to existing chats, a requester A asking
  twice in sequence for a private chat with B (both having users rows where the store
  enforces its references) is answered with the same chat identifier both times, and the
  second call leaves the store exactly as the first call left it: no chat row and no
  membership row is added. And whenever the requester's memberships contain a chat that is
  private, has exactly two membership rows and has the target among them, the call returns
  such a chat of the requester and leaves the store unchanged.
\<close>

theorem createPrivateChat_twice_same_chat:
  assumes "members_refer_to_chats d"
    and "foreignKeys d \<longrightarrow> user_exists d (au_id A) \<and> user_exists d B"
  shows "(\<exists>chatId d1. createPrivateChat (Some A) now B d = (d1, Success chatId)
                     \<and> createPrivateChat (Some A) now' B d1 = (d1, Success chatId))
       \<and> ((\<exists>c \<in> set (member_chats d (au_id A)). private_match d B c) \<longrightarrow>
            (\<exists>c \<in> set (member_chats d (au_id A)).
               private_match d B c \<and> createPrivateChat (Some A) now B d = (d, Success c)))"
proof -
  have twice: "\<exists>chatId d1. createPrivateChat (Some A) now B d = (d1, Success chatId)
                     \<and> createPrivateChat (Some A) now' B d1 = (d1, Success chatId)"
  proof (cases "find_private d B (member_chats d (au_id A))")
    case (Some c)
    then have "createPrivateChat (Some A) now B d = (d, Success c)"
      and "createPrivateChat (Some A) now' B d = (d, Success c)"
      by (simp_all add: createPrivateChat_existing)
    then show ?thesis by blast
  next
    case None
    let ?n = "next_id (map c_id (chats d))"
    from createPrivateChat_creates [OF None assms(2), of now]
    obtain d2 newChat r1 r2 where first: "createPrivateChat (Some A) now B d = (d2, Success ?n)"
      and shape: "chats d2 = chats d @ [newChat]" "c_id newChat = ?n" "c_type newChat = Private"
        "chatMembers d2 = chatMembers d @ [r1, r2]"
        "cm_chatId r1 = ?n" "cm_userId r1 = au_id A" "cm_chatId r2 = ?n" "cm_userId r2 = B"
      by blast
    from assms(1) None shape have "find_private d2 B (member_chats d2 (au_id A)) = Some ?n"
      by (rule created_private_chat_found)
    then have "createPrivateChat (Some A) now' B d2 = (d2, Success ?n)"
      by (rule createPrivateChat_existing)
    with first show ?thesis by blast
  qed
  have existing: "\<exists>c \<in> set (member_chats d (au_id A)).
               private_match d B c \<and> createPrivateChat (Some A) now B d = (d, Success c)"
    if "\<exists>c \<in> set (member_chats d (au_id A)). private_match d B c"
  proof -
    from that have "find_private d B (member_chats d (au_id A)) \<noteq> None"
      by (simp add: find_private_None)
    then obtain c where c: "find_private d B (member_chats d (au_id A)) = Some c" by blast
    from find_private_Some [OF c] createPrivateChat_existing [OF c, of now]
    show ?thesis by blast
  qed
  from twice existing show ?thesis by blast
qed

theorem createPrivateChat_twice_witness:
  "members_refer_to_chats ex_users
   \<and> user_exists ex_users (au_id (token_of ex_alice)) \<and> user_exists ex_users 2
   \<and> chats ex_users = [] \<and> chatMembers ex_users = []
   \<and> (\<exists>d1. createPrivateChat (Some (token_of ex_alice)) 10 2 ex_users = (d1, Success 1)
           \<and> createPrivateChat (Some (token_of ex_alice)) 11 2 d1 = (d1, Success 1)
           \<and> length (chats d1) = 1 \<and> length (chatMembers d1) = 2)
   \<and> (\<exists>c \<in> set (member_chats ex_db (au_id (token_of ex_alice))). private_match ex_db 2 c)
   \<and> createPrivateChat (Some (token_of ex_alice)) 12 2 ex_db = (ex_db, Success 1)"
proof -
  have a: "members_refer_to_chats ex_users" by (simp add: members_refer_to_chats_def ex_defs)
  have u: "user_exists ex_users (au_id (token_of ex_alice))" "user_exists ex_users 2"
    by (simp_all add: ex_defs user_exists_def)
  then have b: "foreignKeys ex_users \<longrightarrow> user_exists ex_users (au_id (token_of ex_alice)) \<and> user_exists ex_users 2"
    by simp
  have e: "chats ex_users = []" "chatMembers ex_users = []" by (simp_all add: ex_defs)
  from createPrivateChat_twice_same_chat [OF a b, of 10 11]
  obtain chatId d1 where r: "createPrivateChat (Some (token_of ex_alice)) 10 2 ex_users = (d1, Success chatId)"
    "createPrivateChat (Some (token_of ex_alice)) 11 2 d1 = (d1, Success chatId)"
    by blast
  have first: "snd (createPrivateChat (Some (token_of ex_alice)) 10 2 ex_users) = Success 1"
    "length (chats (fst (createPrivateChat (Some (token_of ex_alice)) 10 2 ex_users))) = 1"
    "length (chatMembers (fst (createPrivateChat (Some (token_of ex_alice)) 10 2 ex_users))) = 2"
    by (simp_all add: createPrivateChat_def insert_chat_def insert_chat_members_def Let_def
          member_chats_def chat_exists_def user_exists_def next_id_def ex_defs)
  with r have "chatId = 1" "length (chats d1) = 1" "length (chatMembers d1) = 2" by simp_all
  with r have twice: "\<exists>d1. createPrivateChat (Some (token_of ex_alice)) 10 2 ex_users = (d1, Success 1)
           \<and> createPrivateChat (Some (token_of ex_alice)) 11 2 d1 = (d1, Success 1)
           \<and> length (chats d1) = 1 \<and> length (chatMembers d1) = 2"
    by blast
  have a': "members_refer_to_chats ex_db"
    by (simp add: members_refer_to_chats_def ex_defs chat_exists_def)
  have b': "foreignKeys ex_db \<longrightarrow> user_exists ex_db (au_id (token_of ex_alice)) \<and> user_exists ex_db 2"
    by (simp add: ex_defs user_exists_def)
  have m: "\<exists>c \<in> set (member_chats ex_db (au_id (token_of ex_alice))). private_match ex_db 2 c"
    by (simp add: member_chats_def private_match_def ex_defs)
  have only: "set (member_chats ex_db (au_id (token_of ex_alice))) = {1}"
    by (simp add: member_chats_def ex_defs)
  from createPrivateChat_twice_same_chat [OF a' b', of 12 12] m
  obtain c where "c \<in> set (member_chats ex_db (au_id (token_of ex_alice)))"
    "createPrivateChat (Some (token_of ex_alice)) 12 2 ex_db = (ex_db, Success c)"
    by blast
  with only have ex: "createPrivateChat (Some (token_of ex_alice)) 12 2 ex_db = (ex_db, Success 1)"
    by simp
  from a u e twice m ex show ?thesis by blast
qed

section \<open>Membership rows\<close>

lemma add_members_keys:
  "map member_key (add_members now rows tbl) = map member_key tbl @ map (\<lambda>(c, u, r). (c, u)) rows"
  by (induction now rows tbl rule: add_members.induct) (simp_all add: member_key_def)

lemma sendMessage_members:
  "chatMembers (fst (sendMessage cur now chatId t replyToId d)) = chatMembers d
   \<and> chats (fst (sendMessage cur now chatId t replyToId d)) = chats d"
  by (auto simp: sendMessage_def insert_message_def Let_def split: option.splits sum.splits)

lemma editMessage_members:
  "chatMembers (fst (editMessage cur messageId newText d)) = chatMembers d
   \<and> chats (fst (editMessage cur messageId newText d)) = chats d"
  by (simp add: editMessage_def split: option.splits)

lemma deleteMessage_members:
  "chatMembers (fst (deleteMessage cur messageId d)) = chatMembers d
   \<and> chats (fst (deleteMessage cur messageId d)) = chats d"
  by (simp add: deleteMessage_def split: option.splits)

lemma registerAction_members:
  "chatMembers (fst (registerAction hash now formData d)) = chatMembers d
   \<and> chats (fst (registerAction hash now formData d)) = chats d"
  by (auto simp: registerAction_def insert_user_def Let_def split: option.splits sum.splits)

lemma loginAction_members:
  "chatMembers (fst (loginAction compare now formData d)) = chatMembers d
   \<and> chats (fst (loginAction compare now formData d)) = chats d"
  by (auto simp: loginAction_def set_presence_def split: option.splits list.splits)

lemma logoutAction_members:
  "chatMembers (logoutAction cur now d) = chatMembers d \<and> chats (logoutAction cur now d) = chats d"
  by (simp add: logoutAction_def set_presence_def split: option.splits)

lemma updateProfile_members:
  "chatMembers (fst (updateProfile cur formData d)) = chatMembers d
   \<and> chats (fst (updateProfile cur formData d)) = chats d"
  by (auto simp: updateProfile_def update_user_def Let_def split: option.splits sum.splits)

lemma members_refer_fresh:
  assumes "members_refer_to_chats d"
  shows "next_id (map c_id (chats d)) \<notin> fst ` set (map member_key (chatMembers d))"
proof
  assume "next_id (map c_id (chats d)) \<in> fst ` set (map member_key (chatMembers d))"
  then obtain m where m: "m \<in> set (chatMembers d)" "cm_chatId m = next_id (map c_id (chats d))"
    by (auto simp: member_key_def)
  from assms m(1) have "cm_chatId m \<in> set (map c_id (chats d))"
    by (auto simp: members_refer_to_chats_def list_all_iff chat_exists_def)
  then have "cm_chatId m < next_id (map c_id (chats d))" by (rule next_id_above)
  with m(2) show False by simp
qed

lemma createGroupChat_keys:
  "map member_key (chatMembers (fst (createGroupChat (Some cu) now name memberIds d)))
     = map member_key (chatMembers d)
   \<or> map member_key (chatMembers (fst (createGroupChat (Some cu) now name memberIds d)))
     = map member_key (chatMembers d)
       @ map (Pair (next_id (map c_id (chats d)))) (au_id cu # memberIds)"
  by (auto simp: createGroupChat_def insert_chat_def insert_chat_members_def Let_def
        add_members_keys member_key_def comp_def split: sum.splits)

lemma createPrivateChat_keys:
  "map member_key (chatMembers (fst (createPrivateChat (Some cu) now b d)))
     = map member_key (chatMembers d)
   \<or> map member_key (chatMembers (fst (createPrivateChat (Some cu) now b d)))
     = map member_key (chatMembers d)
       @ map (Pair (next_id (map c_id (chats d)))) [au_id cu, b]"
  by (auto simp: createPrivateChat_def insert_chat_def insert_chat_members_def Let_def
        add_members_keys member_key_def split: sum.splits option.splits)

lemma distinct_with_fresh_chat:
  assumes "distinct ks" and "n \<notin> fst ` set ks" and "distinct us"
  shows "distinct (ks @ map (Pair n) us)"
  using assms by (auto simp: distinct_map inj_on_def image_iff)

lemma createGroupChat_success_keys:
  "createGroupChat (Some cu) now name memberIds d = (d', Success c)
     \<Longrightarrow> map member_key (chatMembers d')
           = map member_key (chatMembers d) @ map (Pair c) (au_id cu # memberIds)"
  by (auto simp: createGroupChat_def insert_chat_def insert_chat_members_def Let_def
        add_members_keys member_key_def comp_def split: sum.splits if_splits)

lemma add_members_chatIds:
  "map cm_chatId (add_members now rows tbl) = map cm_chatId tbl @ map fst rows"
  by (induction now rows tbl rule: add_members.induct) simp_all

lemma add_members_chatId_set:
  "cm_chatId ` set (add_members now rows tbl) = cm_chatId ` set tbl \<union> fst ` set rows"
  using arg_cong [OF add_members_chatIds [of now rows tbl], of set] by simp

lemma members_refer_iff:
  "members_refer_to_chats d \<longleftrightarrow> set (map cm_chatId (chatMembers d)) \<subseteq> set (map c_id (chats d))"
  by (auto simp: members_refer_to_chats_def list_all_iff chat_exists_def)

text \<open>Both chat-creating actions keep every membership row pointing at a chat row.\<close>

lemma createGroupChat_refers:
  "members_refer_to_chats d
     \<Longrightarrow> members_refer_to_chats (fst (createGroupChat cur now name memberIds d))"
  unfolding members_refer_iff
  by (auto simp: createGroupChat_def insert_chat_def insert_chat_members_def Let_def
        add_members_chatId_set split: sum.splits option.splits)

lemma createPrivateChat_refers:
  "members_refer_to_chats d
     \<Longrightarrow> members_refer_to_chats (fst (createPrivateChat cur now b d))"
  unfolding members_refer_iff
  by (auto simp: createPrivateChat_def insert_chat_def insert_chat_members_def Let_def
        add_members_chatId_set split: sum.splits option.splits)

text \<open>
  Claim C9, as stated, fails: a requester who lists their own id among the members of a new
  group gets two membership rows for the same (chat, user) pair, and a repeated id is
  inserted as often as it is listed.
\<close>

theorem createGroupChat_duplicate_membership_counterexample:
  "pair_unique ex_users
   \<and> map member_key (chatMembers (fst (createGroupChat (Some (token_of ex_alice)) 10 ''team'' [1] ex_users)))
       = [(1, 1), (1, 1)]
   \<and> \<not> pair_unique (fst (createGroupChat (Some (token_of ex_alice)) 10 ''team'' [1] ex_users))
   \<and> map member_key (chatMembers (fst (createGroupChat (Some (token_of ex_alice)) 10 ''team'' [2, 2] ex_users)))
       = [(1, 1), (1, 2), (1, 2)]
   \<and> \<not> pair_unique (fst (createGroupChat (Some (token_of ex_alice)) 10 ''team'' [2, 2] ex_users))"
  by (simp add: pair_unique_def member_key_def createGroupChat_def insert_chat_def
        insert_chat_members_def Let_def chat_exists_def user_exists_def next_id_def ex_defs)

text \<open>
  Claim C9, amended. In a store where membership rows refer to existing chats and no
  (chat, user) pair is repeated, every action keeps the pairs unique provided createGroupChat
  is given member ids that are pairwise distinct and do not include the requester, and
  createPrivateChat a target other than the requester; the other actions do not touch the
  membership rows. A successful createGroupChat inserts exactly one membership row per entry
  of the list made of the requester followed by memberIds, with no removal of repeats.
\<close>

theorem membership_pairs_unique_for_distinct_members:
  assumes "pair_unique d" and "members_refer_to_chats d"
  shows "(distinct (au_id cu # memberIds) \<longrightarrow>
            pair_unique (fst (createGroupChat (Some cu) now name memberIds d)))
       \<and> (target \<noteq> au_id cu \<longrightarrow> pair_unique (fst (createPrivateChat (Some cu) now target d)))
       \<and> pair_unique (fst (createGroupChat None now name memberIds d))
       \<and> pair_unique (fst (createPrivateChat None now target d))
       \<and> pair_unique (fst (sendMessage cur now chatId body replyToId d))
       \<and> pair_unique (fst (editMessage cur messageId body d))
       \<and> pair_unique (fst (deleteMessage cur messageId d))
       \<and> pair_unique (fst (registerAction hash now formData d))
       \<and> pair_unique (fst (loginAction compare now formData d))
       \<and> pair_unique (logoutAction cur now d)
       \<and> pair_unique (fst (updateProfile cur formData d))
       \<and> (\<forall>d' c. createGroupChat (Some cu) now name memberIds d = (d', Success c) \<longrightarrow>
             map member_key (chatMembers d')
               = map member_key (chatMembers d) @ map (Pair c) (au_id cu # memberIds))"
proof -
  let ?n = "next_id (map c_id (chats d))"
  from assms(1) have dist: "distinct (map member_key (chatMembers d))"
    by (simp add: pair_unique_def)
  from assms(2) have fresh: "?n \<notin> fst ` set (map member_key (chatMembers d))"
    by (rule members_refer_fresh)
  have grp: "pair_unique (fst (createGroupChat (Some cu) now name memberIds d))"
    if "distinct (au_id cu # memberIds)"
    using createGroupChat_keys [of cu now name memberIds d]
      distinct_with_fresh_chat [OF dist fresh that] dist
    by (auto simp: pair_unique_def)
  have prv: "pair_unique (fst (createPrivateChat (Some cu) now target d))"
    if "target \<noteq> au_id cu"
  proof -
    from that have "distinct [au_id cu, target]" by auto
    with createPrivateChat_keys [of cu now target d]
      distinct_with_fresh_chat [OF dist fresh, of "[au_id cu, target]"] dist
    show ?thesis by (auto simp: pair_unique_def)
  qed
  have anon: "pair_unique (fst (createGroupChat None now name memberIds d))"
    "pair_unique (fst (createPrivateChat None now target d))"
    using assms(1) by (simp_all add: createGroupChat_def createPrivateChat_def)
  have rest: "pair_unique (fst (sendMessage cur now chatId body replyToId d))"
    "pair_unique (fst (editMessage cur messageId body d))"
    "pair_unique (fst (deleteMessage cur messageId d))"
    "pair_unique (fst (registerAction hash now formData d))"
    "pair_unique (fst (loginAction compare now formData d))"
    "pair_unique (logoutAction cur now d)"
    "pair_unique (fst (updateProfile cur formData d))"
    using assms(1)
    by (simp_all add: pair_unique_def sendMessage_members editMessage_members
          deleteMessage_members registerAction_members loginAction_members
          logoutAction_members updateProfile_members)
  have rows: "\<forall>d' c. createGroupChat (Some cu) now name memberIds d = (d', Success c) \<longrightarrow>
             map member_key (chatMembers d')
               = map member_key (chatMembers d) @ map (Pair c) (au_id cu # memberIds)"
    using createGroupChat_success_keys by blast
  from grp prv anon rest rows show ?thesis by blast
qed

theorem membership_pairs_unique_witness:
  "pair_unique ex_db \<and> members_refer_to_chats ex_db
   \<and> distinct (au_id (token_of ex_alice) # [2])
   \<and> pair_unique (fst (createGroupChat (Some (token_of ex_alice)) 20 ''team'' [2] ex_db))
   \<and> map member_key (chatMembers (fst (createGroupChat (Some (token_of ex_alice)) 20 ''team'' [2] ex_db)))
       = [(1, 1), (1, 2), (2, 1), (2, 2)]
   \<and> (2::int) \<noteq> au_id (token_of ex_alice)
   \<and> pair_unique (fst (createPrivateChat (Some (token_of ex_alice)) 20 2 ex_db))"
proof -
  have a: "pair_unique ex_db" by (simp add: pair_unique_def member_key_def ex_defs)
  have b: "members_refer_to_chats ex_db"
    by (simp add: members_refer_to_chats_def chat_exists_def ex_defs)
  have c: "distinct (au_id (token_of ex_alice) # [2])" "(2::int) \<noteq> au_id (token_of ex_alice)"
    by (simp_all add: ex_defs)
  note inst = membership_pairs_unique_for_distinct_members
                [OF a b, of "token_of ex_alice" "[2]" 20 "''team''" 2]
  from inst c have g: "pair_unique (fst (createGroupChat (Some (token_of ex_alice)) 20 ''team'' [2] ex_db))"
    and p: "pair_unique (fst (createPrivateChat (Some (token_of ex_alice)) 20 2 ex_db))"
    by blast+
  have k: "map member_key (chatMembers (fst (createGroupChat (Some (token_of ex_alice)) 20 ''team'' [2] ex_db)))
       = [(1, 1), (1, 2), (2, 1), (2, 2)]"
    by (simp add: member_key_def createGroupChat_def insert_chat_def
        insert_chat_members_def Let_def chat_exists_def user_exists_def next_id_def ex_defs)
  from a b c g p k show ?thesis by blast
qed

section \<open>The chat list\<close>

lemma ts_le_total: "ts_le a b \<or> ts_le b a"
  by (cases a; cases b) auto

lemma ts_le_trans: "ts_le a b \<Longrightarrow> ts_le b c \<Longrightarrow> ts_le a c"
  by (cases a; cases b; cases c) auto

lemma sort_by_head:
  assumes total: "\<And>a b. le a b \<or> le b a" and trans: "\<And>a b c. le a b \<Longrightarrow> le b c \<Longrightarrow> le a c"
    and "sort_by le xs = m # rest"
  shows "m \<in> set xs \<and> (\<forall>x \<in> set xs. le m x)"
proof -
  from assms(3) have s: "set xs = insert m (set rest)"
    using set_sort_by [of le xs] by simp
  from sorted_sort_by [of le xs, OF total trans] assms(3)
  have "\<forall>x \<in> set rest. le m x" by simp
  moreover from total [of m m] have "le m m" by simp
  ultimately show ?thesis using s by auto
qed

lemma ts_le_Some: "after_epoch a \<Longrightarrow> after_epoch b \<Longrightarrow> ts_le a b \<longleftrightarrow> the a \<le> the b"
  by (cases a; cases b) (auto simp: after_epoch_def)

lemma map_filter_stamped:
  "\<forall>m \<in> set ms. after_epoch (m_createdAt m)
     \<Longrightarrow> List.map_filter m_createdAt ms = map (\<lambda>m. the (m_createdAt m)) ms"
  by (induction ms) (auto simp: List.map_filter_simps after_epoch_def split: option.splits)

text \<open>
  Under \<open>stamped\<close>, the comparator's number for the summary of a chat is the specification's
  key, in milliseconds.
\<close>

lemma sort_time_is_activity:
  assumes st: "stamped d" and c: "c \<in> set (chats d)"
  shows "\<exists>t. activity_time d (chat_summary_of cu d c) = Some t
             \<and> sort_time (chat_summary_of cu d c) = t * 1000 \<and> 0 < t"
proof -
  let ?live = "[m \<leftarrow> messages d. m_chatId m = c_id c \<and> m_isDeleted m = Some False]"
  let ?desc = "\<lambda>a b. ts_le (m_createdAt b) (m_createdAt a)"
  let ?s = "chat_summary_of cu d c"
  have id: "cs_id ?s = c_id c" and cr: "cs_createdAt ?s = c_createdAt c"
    and lm: "cs_lastMessage ?s = last_message d (c_id c)"
    by (simp_all add: chat_summary_of_def Let_def)
  from st have all: "\<forall>m \<in> set ?live. after_epoch (m_createdAt m)"
    by (auto simp: stamped_def list_all_iff)
  then have lt: "live_times d (c_id c) = map (\<lambda>m. the (m_createdAt m)) ?live"
    unfolding live_times_def by (rule map_filter_stamped)
  from st c obtain tc where tc: "c_createdAt c = Some tc" "0 < tc" "tc \<le> 8640000000000"
    by (auto simp: stamped_def list_all_iff after_epoch_def split: option.splits)
  show ?thesis
  proof (cases "sort_by ?desc ?live")
    case Nil
    then have "length ?live = 0" using length_sort_by [of ?desc ?live] by simp
    then have e: "?live = []" by simp
    then have "last_message d (c_id c) = None" by (simp add: last_message_def sort_by_def)
    with lm cr tc have "sort_time ?s = tc * 1000"
      by (simp add: sort_time_def or_time_def getTime_def)
    moreover from e lt id cr tc have "activity_time d ?s = Some tc"
      by (simp add: activity_time_def)
    ultimately show ?thesis using tc by blast
  next
    case (Cons m rest)
    have tot: "?desc a b \<or> ?desc b a" for a b :: message by (rule ts_le_total)
    have tr: "?desc a b \<Longrightarrow> ?desc b e \<Longrightarrow> ?desc a e" for a b e :: message
      by (rule ts_le_trans)
    have hd: "m \<in> set ?live \<and> (\<forall>x \<in> set ?live. ?desc m x)"
      using tot tr Cons by (rule sort_by_head [of ?desc])
    with all obtain tm where tm: "m_createdAt m = Some tm" "0 < tm" "tm \<le> 8640000000000"
      by (auto simp: after_epoch_def split: option.splits)
    from Cons have "last_message d (c_id c) = Some m" by (simp add: last_message_def)
    with lm tm have key: "sort_time ?s = tm * 1000"
      by (simp add: sort_time_def or_time_def getTime_def)
    from hd tm have in_lt: "tm \<in> set (live_times d (c_id c))"
      unfolding lt by force
    have ub: "\<forall>x \<in> set (live_times d (c_id c)). x \<le> tm"
    proof
      fix x assume "x \<in> set (live_times d (c_id c))"
      then obtain y where y: "y \<in> set ?live" "x = the (m_createdAt y)"
        unfolding lt by auto
      with hd have "ts_le (m_createdAt y) (m_createdAt m)" by blast
      moreover from all y have "after_epoch (m_createdAt y)" by blast
      ultimately show "x \<le> tm" using tm y(2)
        by (cases "m_createdAt y") (simp_all add: after_epoch_def)
    qed
    from in_lt obtain t ts where sp: "live_times d (c_id c) = t # ts"
      by (cases "live_times d (c_id c)") auto
    have "Max (set (t # ts)) = tm"
      using in_lt ub unfolding sp by (intro Max_eqI) auto
    with sp id have "activity_time d ?s = Some tm" by (simp add: activity_time_def)
    with key tm show ?thesis by blast
  qed
qed

text \<open>
  The actions keep \<open>stamped\<close> when the clock reads a time after the epoch that a Date
  can hold.
\<close>

lemma actions_keep_stamped:
  assumes "stamped d" and "0 < now" and "now \<le> 8640000000000"
  shows "stamped (fst (sendMessage cur now chatId body replyToId d))"
    and "stamped (fst (editMessage cur messageId body d))"
    and "stamped (fst (deleteMessage cur messageId d))"
    and "stamped (fst (createPrivateChat cur now target d))"
    and "stamped (fst (createGroupChat cur now name memberIds d))"
  using assms
  by (auto simp: stamped_def after_epoch_def list_all_iff sendMessage_def insert_message_def
        editMessage_def deleteMessage_def createPrivateChat_def createGroupChat_def
        insert_chat_def insert_chat_members_def Let_def
        split: option.splits sum.splits)

text \<open>
  Past the range of a Date the comparator passes over the message's time: a chat whose only
  message is stamped one second beyond the range sorts by its own creation time, below a
  younger chat without messages. Such a store is not \<open>stamped\<close>.
\<close>

lemma getUserChats_invalid_date_falls_through:
  "\<not> stamped ex_far_db
   \<and> map (\<lambda>s. (cs_id s, sort_time s)) (getUserChats (Some (token_of ex_alice)) ex_far_db)
       = [(2, 20000), (1, 10000)]"
proof -
  have ns: "\<not> stamped ex_far_db"
    by (simp add: stamped_def after_epoch_def ex_far_db_def ex_msg_def)
  have lm: "last_message ex_far_db 1 = Some (ex_msg\<lparr>m_createdAt := Some 8640000000001\<rparr>)"
    "last_message ex_far_db 2 = None"
    by (simp_all add: last_message_def sort_by_def ex_far_db_def ex_msg_def)
  have mc: "member_chats ex_far_db (au_id (token_of ex_alice)) = [1, 2]"
    by (simp add: member_chats_def ex_far_db_def ex_member_def ex_defs)
  have ch: "[c \<leftarrow> chats ex_far_db. c_id c = 1] = [ex_chat 1 10]"
    "[c \<leftarrow> chats ex_far_db. c_id c = 2] = [ex_chat 2 20]"
    by (simp_all add: ex_far_db_def ex_chat_def)
  have "map (\<lambda>s. (cs_id s, sort_time s)) (getUserChats (Some (token_of ex_alice)) ex_far_db)
       = [(2, 20000), (1, 10000)]"
    by (simp add: getUserChats_def mc ch sort_by_def chat_summary_of_def Let_def lm
          sort_time_def or_time_def getTime_def ex_chat_def ex_msg_def)
  with ns show ?thesis by blast
qed

lemma summaries_come_from_chats:
  assumes "s \<in> set (getUserChats (Some cu) d)"
  shows "\<exists>c \<in> set (chats d). s = chat_summary_of cu d c"
proof -
  from assms obtain chatId where mem:
    "s \<in> set (case [c \<leftarrow> chats d. c_id c = chatId] of [] \<Rightarrow> [] | c # _ \<Rightarrow> [chat_summary_of cu d c])"
    by (auto simp: getUserChats_def set_sort_by)
  then show ?thesis
  proof (cases "[c \<leftarrow> chats d. c_id c = chatId]")
    case Nil
    with mem show ?thesis by simp
  next
    case (Cons c rest)
    then have "c \<in> set [c \<leftarrow> chats d. c_id c = chatId]" by simp
    moreover from Cons mem have "s = chat_summary_of cu d c" by simp
    ultimately show ?thesis by auto
  qed
qed

lemma summary_ids:
  "map cs_id (concat (map (\<lambda>chatId. case [c \<leftarrow> chats d. c_id c = chatId] of
                                       [] \<Rightarrow> []
                                     | c # _ \<Rightarrow> [chat_summary_of cu d c]) ids))
     = [chatId \<leftarrow> ids. chat_exists d chatId]"
proof (induction ids)
  case Nil
  show ?case by simp
next
  case (Cons i ids)
  show ?case
  proof (cases "[c \<leftarrow> chats d. c_id c = i]")
    case Nil
    then have "\<not> chat_exists d i" by (auto simp: chat_exists_def filter_empty_conv)
    with Nil Cons show ?thesis by simp
  next
    case (Cons c rest)
    then have "c \<in> set [c \<leftarrow> chats d. c_id c = i]" by simp
    then have "chat_exists d i" "c_id c = i" by (auto simp: chat_exists_def)
    with Cons Cons.IH show ?thesis by (simp add: chat_summary_of_def Let_def)
  qed
qed

text \<open>
  Claim C6. In a store whose messages and chats carry creation times after the epoch and
  within the range of a Date (at most 8640000000000 seconds), the list getUserChats returns for an authenticated user is sorted descending by the time of the
  chat's most recent message whose deleted flag is false, or by the chat's own creation time
  when it has no such message, all on one time axis. The list holds one summary per
  membership row of the user whose chat exists, each carrying the id and the creation time of
  a chat row.
\<close>

theorem getUserChats_sorted_by_last_activity:
  assumes "stamped d"
  shows "sorted_wrt (\<lambda>a b. ts_le (activity_time d b) (activity_time d a)) (getUserChats (Some cu) d)
       \<and> mset (map cs_id (getUserChats (Some cu) d))
           = mset [chatId \<leftarrow> member_chats d (au_id cu). chat_exists d chatId]
       \<and> (\<forall>s \<in> set (getUserChats (Some cu) d).
             \<exists>c \<in> set (chats d). cs_id s = c_id c \<and> cs_createdAt s = c_createdAt c)"
proof -
  let ?cmp = "\<lambda>a b. sort_time b - sort_time a \<le> 0"
  let ?res = "getUserChats (Some cu) d"
  have "sorted_wrt ?cmp (sort_by ?cmp xs)" for xs
    by (rule sorted_sort_by) auto
  then have by_key: "sorted_wrt ?cmp ?res" by (simp add: getUserChats_def)
  have key: "\<exists>t. activity_time d s = Some t \<and> sort_time s = t * 1000" if "s \<in> set ?res" for s
  proof -
    from summaries_come_from_chats [OF that] obtain c
      where "c \<in> set (chats d)" "s = chat_summary_of cu d c" by blast
    with sort_time_is_activity [OF assms, of c cu] show ?thesis by blast
  qed
  have "ts_le (activity_time d b) (activity_time d a)"
    if "a \<in> set ?res" "b \<in> set ?res" "?cmp a b" for a b
  proof -
    from key [OF that(1)] obtain ta where ta: "activity_time d a = Some ta" "sort_time a = ta * 1000"
      by blast
    from key [OF that(2)] obtain tb where tb: "activity_time d b = Some tb" "sort_time b = tb * 1000"
      by blast
    from that(3) ta tb show ?thesis by simp
  qed
  with by_key have sorted: "sorted_wrt (\<lambda>a b. ts_le (activity_time d b) (activity_time d a)) ?res"
    by (rule_tac sorted_wrt_mono_rel [of ?res ?cmp]) auto
  have ids: "mset (map cs_id ?res) = mset [chatId \<leftarrow> member_chats d (au_id cu). chat_exists d chatId]"
  proof -
    have "mset (map cs_id ?res)
            = image_mset cs_id (mset (concat (map (\<lambda>chatId. case [c \<leftarrow> chats d. c_id c = chatId] of
                                       [] \<Rightarrow> []
                                     | c # _ \<Rightarrow> [chat_summary_of cu d c]) (member_chats d (au_id cu)))))"
      by (simp add: getUserChats_def mset_sort_by)
    also have "\<dots> = mset (map cs_id (concat (map (\<lambda>chatId. case [c \<leftarrow> chats d. c_id c = chatId] of
                                       [] \<Rightarrow> []
                                     | c # _ \<Rightarrow> [chat_summary_of cu d c]) (member_chats d (au_id cu)))))"
      by simp
    finally show ?thesis by (simp only: summary_ids)
  qed
  have rows: "\<forall>s \<in> set ?res. \<exists>c \<in> set (chats d). cs_id s = c_id c \<and> cs_createdAt s = c_createdAt c"
  proof
    fix s assume "s \<in> set ?res"
    from summaries_come_from_chats [OF this] obtain c
      where "c \<in> set (chats d)" "s = chat_summary_of cu d c" by blast
    then show "\<exists>c \<in> set (chats d). cs_id s = c_id c \<and> cs_createdAt s = c_createdAt c"
      by (auto simp: chat_summary_of_def Let_def)
  qed
  from sorted ids rows show ?thesis by blast
qed

theorem getUserChats_witness:
  "stamped ex_chats_db
   \<and> map (\<lambda>s. (cs_id s, activity_time ex_chats_db s))
         (getUserChats (Some (token_of ex_alice)) ex_chats_db)
       = [(3, Some 30), (1, Some 25), (2, Some 20)]
   \<and> sorted_wrt (\<lambda>a b. ts_le (activity_time ex_chats_db b) (activity_time ex_chats_db a))
        (getUserChats (Some (token_of ex_alice)) ex_chats_db)"
proof -
  have st: "stamped ex_chats_db"
    by (simp add: stamped_def after_epoch_def ex_chats_db_def ex_chat_def ex_msg_def)
  have lm: "last_message ex_chats_db 1 = Some (ex_msg\<lparr>m_id := 2, m_createdAt := Some 25\<rparr>)"
    "last_message ex_chats_db 2 = None" "last_message ex_chats_db 3 = None"
    by (simp_all add: last_message_def sort_by_def ex_chats_db_def ex_msg_def)
  have lt: "live_times ex_chats_db 1 = [15, 25]" "live_times ex_chats_db 2 = []"
    "live_times ex_chats_db 3 = []"
    by (simp_all add: live_times_def List.map_filter_simps ex_chats_db_def ex_msg_def)
  have mc: "member_chats ex_chats_db (au_id (token_of ex_alice)) = [1, 2, 3]"
    by (simp add: member_chats_def ex_chats_db_def ex_member_def ex_defs)
  have ch: "[c \<leftarrow> chats ex_chats_db. c_id c = 1] = [ex_chat 1 10]"
    "[c \<leftarrow> chats ex_chats_db. c_id c = 2] = [ex_chat 2 20]"
    "[c \<leftarrow> chats ex_chats_db. c_id c = 3] = [ex_chat 3 30]"
    by (simp_all add: ex_chats_db_def ex_chat_def)
  have order: "map (\<lambda>s. (cs_id s, activity_time ex_chats_db s))
         (getUserChats (Some (token_of ex_alice)) ex_chats_db)
       = [(3, Some 30), (1, Some 25), (2, Some 20)]"
    by (simp add: getUserChats_def mc ch sort_by_def chat_summary_of_def Let_def lm lt
          sort_time_def or_time_def getTime_def activity_time_def ex_chat_def ex_msg_def)
  from getUserChats_sorted_by_last_activity [OF st, of "token_of ex_alice"]
  have "sorted_wrt (\<lambda>a b. ts_le (activity_time ex_chats_db b) (activity_time ex_chats_db a))
        (getUserChats (Some (token_of ex_alice)) ex_chats_db)"
    by blast
  with st order show ?thesis by blast
qed

end
